theory Spec2Isabelle
  imports Main
begin

section \<open>Values and errors\<close>

text \<open>
  The program passes around whatever \<^verbatim>\<open>json.loads\<close> returns: dictionaries, lists,
  strings, numbers, booleans and \<^verbatim>\<open>None\<close>. Python's \<^verbatim>\<open>None\<close> and JSON's
  \<^verbatim>\<open>null\<close> are the same value, \<open>JNull\<close>. A dictionary is an association list in
  insertion order with distinct keys. A text is a list of 8-bit characters, so the model
  covers code points below 256. A float is kept as the decimal it was written as,
  \<open>JFloat m e\<close> standing for \<open>m * 10 ^ e\<close>; \<open>JNaN\<close> and \<open>JInf\<close> are the three
  constants the decoder accepts besides.
\<close>

datatype json =
    JNull
  | JBool bool
  | JInt int
  | JFloat int int
  | JNaN
  | JInf bool
  | JString string
  | JArray "json list"
  | JObject "(string \<times> json) list"

text \<open>
  The exceptions. \<open>ValueError\<close> is the one the program raises itself, with
  \<^verbatim>\<open>raise ValueError(...)\<close>. The file-system calls raise two more: \<open>OSError\<close> stands for
  \<^verbatim>\<open>OSError\<close> and its subclasses (\<^verbatim>\<open>FileNotFoundError\<close>, \<^verbatim>\<open>IsADirectoryError\<close>, ...), and
  \<open>NullByteError\<close> for the \<^verbatim>\<open>ValueError\<close> with the message \<^verbatim>\<open>embedded null byte\<close>, which
  the interpreter raises for a path that contains the character 0. The latter is a
  \<^verbatim>\<open>ValueError\<close> to a handler; it is kept apart because it does not come from a
  \<^verbatim>\<open>raise\<close> statement of the program.
\<close>

datatype error =
    ValueError | JSONDecodeError | IndexError | KeyError | AttributeError | TypeError
  | OSError | NullByteError

text \<open>
  A decimal \<open>m * 10 ^ e\<close> is read as the float \<open>0.0\<close> exactly when its magnitude is
  at most \<open>2 ^ -1075\<close>, half the smallest positive double.
\<close>

definition float_is_zero :: "int \<Rightarrow> int \<Rightarrow> bool" where
  "float_is_zero m e =
     (m = 0 \<or> (e < 0 \<and> \<bar>m\<bar> * 2 ^ 1075 \<le> 10 ^ nat (- e)))"

text \<open>Python's truth value of an object, as \<^verbatim>\<open>if result:\<close> and \<^verbatim>\<open>not x\<close> test it.\<close>

fun truthy :: "json \<Rightarrow> bool" where
  "truthy JNull = False"
| "truthy (JBool b) = b"
| "truthy (JInt i) = (i \<noteq> 0)"
| "truthy (JFloat m e) = (\<not> float_is_zero m e)"
| "truthy JNaN = True"
| "truthy (JInf neg) = True"
| "truthy (JString s) = (s \<noteq> [])"
| "truthy (JArray xs) = (xs \<noteq> [])"
| "truthy (JObject kvs) = (kvs \<noteq> [])"

text \<open>\<^verbatim>\<open>d[k] = v\<close> on a dictionary: an existing key keeps its place, a new one goes last.\<close>

fun dict_set :: "('k \<times> 'v) list \<Rightarrow> 'k \<Rightarrow> 'v \<Rightarrow> ('k \<times> 'v) list" where
  "dict_set [] k v = [(k, v)]"
| "dict_set ((k', v') # kvs) k v =
     (if k' = k then (k, v) # kvs else (k', v') # dict_set kvs k v)"

section \<open>String operations of the Python runtime\<close>

text \<open>
  The characters \<^verbatim>\<open>str.strip()\<close> removes and that \<^verbatim>\<open>\s\<close> matches in a pattern over
  \<^verbatim>\<open>str\<close>: below 256 these are 9 to 13, 28 to 32, 0x85 and 0xA0.
\<close>

definition is_space :: "char \<Rightarrow> bool" where
  "is_space c =
     (let n = (of_char c :: nat)
      in (9 \<le> n \<and> n \<le> 13) \<or> (28 \<le> n \<and> n \<le> 32) \<or> n = 133 \<or> n = 160)"

definition strip :: "string \<Rightarrow> string" where
  "strip s = rev (dropWhile is_space (rev (dropWhile is_space s)))"

definition startswith :: "string \<Rightarrow> string \<Rightarrow> bool" where
  "startswith s p = (take (length p) s = p)"

definition endswith :: "string \<Rightarrow> string \<Rightarrow> bool" where
  "endswith s p = (length p \<le> length s \<and> drop (length s - length p) s = p)"

text \<open>\<^verbatim>\<open>sub in s\<close> on strings.\<close>

fun py_in :: "string \<Rightarrow> string \<Rightarrow> bool" where
  "py_in sub [] = (sub = [])"
| "py_in sub (c # cs) = (startswith (c # cs) sub \<or> py_in sub cs)"

text \<open>\<^verbatim>\<open>s.find(sub)\<close>, with \<open>None\<close> for the answer -1.\<close>

fun py_find :: "string \<Rightarrow> string \<Rightarrow> nat option" where
  "py_find [] sub = (if sub = [] then Some 0 else None)"
| "py_find (c # cs) sub =
     (if startswith (c # cs) sub then Some 0 else map_option Suc (py_find cs sub))"

lemma startswith_length: "startswith s p \<Longrightarrow> length p \<le> length s"
proof -
  assume "startswith s p"
  then have "length (take (length p) s) = length p"
    by (simp add: startswith_def)
  then show ?thesis
    by (simp only: length_take)
qed

lemma find_bound: "py_find s sub = Some i \<Longrightarrow> i + length sub \<le> length s"
proof (induction s arbitrary: i)
  case Nil
  then show ?case by (simp split: if_splits)
next
  case (Cons c cs)
  show ?case
  proof (cases "startswith (c # cs) sub")
    case True
    then have "length sub \<le> length (c # cs)"
      by (rule startswith_length)
    with True Cons.prems show ?thesis by simp
  next
    case False
    with Cons.prems obtain j where "py_find cs sub = Some j" "i = Suc j" by auto
    with Cons.IH show ?thesis by simp
  qed
qed

text \<open>
  \<^verbatim>\<open>s.split(sep)\<close> for a non-empty separator: the pieces between the occurrences of
  \<open>sep\<close>, found from the left without overlap. (Python raises on an empty separator;
  the program only splits on fixed non-empty ones.)
\<close>

function split :: "string \<Rightarrow> string \<Rightarrow> string list" where
  "split s sep =
     (if sep = [] then [s]
      else case py_find s sep of
             None \<Rightarrow> [s]
           | Some i \<Rightarrow> take i s # split (drop (i + length sep) s) sep)"
  by pat_completeness auto
termination
proof (relation "measure (\<lambda>(s, sep). length s)")
  show "wf (measure (\<lambda>(s, sep). length s))" by simp
next
  fix s sep :: string and i :: nat
  assume "sep \<noteq> []" and "py_find s sep = Some i"
  then have "i + length sep \<le> length s" and "0 < length sep"
    by (simp_all add: find_bound)
  then have "length (drop (i + length sep) s) < length s"
    by (simp only: length_drop)
  then show "((drop (i + length sep) s, sep), (s, sep)) \<in> measure (\<lambda>(s, sep). length s)"
    by simp
qed

declare split.simps [simp del]

text \<open>\<^verbatim>\<open>xs[i]\<close> for \<open>i \<ge> 0\<close>: out of range raises \<^verbatim>\<open>IndexError\<close>.\<close>

definition index :: "'a list \<Rightarrow> nat \<Rightarrow> error + 'a" where
  "index xs i = (if i < length xs then Inr (xs ! i) else Inl IndexError)"

text \<open>\<^verbatim>\<open>sep.join(xs)\<close>.\<close>

fun join :: "string \<Rightarrow> string list \<Rightarrow> string" where
  "join sep [] = []"
| "join sep [x] = x"
| "join sep (x # y # ys) = x @ sep @ join sep (y # ys)"

section \<open>The library decoder\<close>

text \<open>
  \<^verbatim>\<open>json.loads\<close> belongs to the Python standard library, not to the repository. The parsing
  strategies below take the decoder as their first argument \<open>loads\<close>, with \<open>None\<close> for
  any exception it raises, so what is proved of them holds of whatever the decoder does.
  Where a property is about the decoder's answer on one particular text, \<open>json_loads\<close> is
  used: a tokeniser followed by a stack automaton for the JSON grammar as the library
  reads it (white space is blank, tab, line feed and carriage return; a control character
  inside a string is an error; a later duplicate key overwrites the earlier value;
  \<^verbatim>\<open>NaN\<close>, \<^verbatim>\<open>Infinity\<close> and \<^verbatim>\<open>-Infinity\<close> are accepted). Two things it leaves out: a
  \<^verbatim>\<open>\u\<close> escape that names a code point of 256 or more lies outside the 8-bit texts
  modelled here and is rejected, and an integer literal is read whatever its length,
  where recent interpreters refuse one of several thousand digits.
\<close>

datatype token =
    TLBrace | TRBrace | TLBracket | TRBracket | TComma | TColon
  | TString string
  | TAtom json

definition is_json_ws :: "char \<Rightarrow> bool" where
  "is_json_ws c = (c = CHR '' '' \<or> c = CHR 0x09 \<or> c = CHR 0x0A \<or> c = CHR 0x0D)"

definition is_digit :: "char \<Rightarrow> bool" where
  "is_digit c = (48 \<le> (of_char c :: nat) \<and> (of_char c :: nat) \<le> 57)"

definition digits_value :: "string \<Rightarrow> nat" where
  "digits_value ds = foldl (\<lambda>n c. 10 * n + (of_char c - 48)) 0 ds"

definition hex_value :: "char \<Rightarrow> nat option" where
  "hex_value c =
     (let n = (of_char c :: nat)
      in if 48 \<le> n \<and> n \<le> 57 then Some (n - 48)
         else if 65 \<le> n \<and> n \<le> 70 then Some (n - 55)
         else if 97 \<le> n \<and> n \<le> 102 then Some (n - 87)
         else None)"

definition hex4 :: "char \<Rightarrow> char \<Rightarrow> char \<Rightarrow> char \<Rightarrow> nat option" where
  "hex4 a b c d =
     (case (hex_value a, hex_value b, hex_value c, hex_value d) of
        (Some x, Some y, Some z, Some w) \<Rightarrow> Some (((x * 16 + y) * 16 + z) * 16 + w)
      | _ \<Rightarrow> None)"

text \<open>The character a one-letter escape stands for.\<close>

definition unescape :: "char \<Rightarrow> char option" where
  "unescape e =
     (if e = CHR 0x22 then Some (CHR 0x22)
      else if e = CHR 0x5C then Some (CHR 0x5C)
      else if e = CHR ''/'' then Some (CHR ''/'')
      else if e = CHR ''b'' then Some (CHR 0x08)
      else if e = CHR ''f'' then Some (CHR 0x0C)
      else if e = CHR ''n'' then Some (CHR 0x0A)
      else if e = CHR ''r'' then Some (CHR 0x0D)
      else if e = CHR ''t'' then Some (CHR 0x09)
      else None)"

definition push_char :: "char \<Rightarrow> (string \<times> string) option \<Rightarrow> (string \<times> string) option" where
  "push_char c r = (case r of None \<Rightarrow> None | Some (str, rest) \<Rightarrow> Some (c # str, rest))"

text \<open>
  The body of a string literal, read from just after the opening quote: the decoded
  characters and the text after the closing quote.
\<close>

fun scanstring :: "string \<Rightarrow> (string \<times> string) option" where
  "scanstring [] = None"
| "scanstring (c # cs) =
     (if c = CHR 0x22 then Some ([], cs)
      else if c = CHR 0x5C then
        (case cs of
           [] \<Rightarrow> None
         | e # es \<Rightarrow>
             if e = CHR ''u'' then
               (case es of
                  h1 # h2 # h3 # h4 # rest \<Rightarrow>
                    (case hex4 h1 h2 h3 h4 of
                       None \<Rightarrow> None
                     | Some n \<Rightarrow>
                         if n < 256 then push_char (char_of n) (scanstring rest) else None)
                | _ \<Rightarrow> None)
             else
               (case unescape e of
                  None \<Rightarrow> None
                | Some ch \<Rightarrow> push_char ch (scanstring es)))
      else if (of_char c :: nat) < 32 then None
      else push_char c (scanstring cs))"

text \<open>
  An exponent \<^verbatim>\<open>[eE][-+]?[0-9]+\<close> at the head of the text, if there is one: its value and
  the text after it.
\<close>

definition lex_exponent :: "string \<Rightarrow> (int \<times> string) option" where
  "lex_exponent s =
     (case s of
        [] \<Rightarrow> None
      | e # r \<Rightarrow>
          if e = CHR ''e'' \<or> e = CHR ''E'' then
            (let neg = startswith r ''-'';
                 r' = (if startswith r ''-'' \<or> startswith r ''+'' then drop 1 r else r);
                 ed = takeWhile is_digit r'
             in if ed = [] then None
                else Some ((if neg then - int (digits_value ed) else int (digits_value ed)),
                           dropWhile is_digit r'))
          else None)"

text \<open>
  A number at the head of the text, by the pattern
  \<^verbatim>\<open>(-?(?:0|[1-9][0-9]*))(\.[0-9]+)?([eE][-+]?[0-9]+)?\<close>: an \<open>int\<close> when it has neither
  fraction nor exponent, a float otherwise.
\<close>

definition lex_number :: "string \<Rightarrow> (token \<times> string) option" where
  "lex_number s =
     (let neg = startswith s ''-'';
          s1 = (if neg then drop 1 s else s)
      in case s1 of
           [] \<Rightarrow> None
         | d # ds \<Rightarrow>
             if \<not> is_digit d then None
             else
               (let ip = (if d = CHR ''0'' then [d] else d # takeWhile is_digit ds);
                    s2 = (if d = CHR ''0'' then ds else dropWhile is_digit ds);
                    fd = (if startswith s2 ''.'' then takeWhile is_digit (drop 1 s2) else []);
                    s3 = (if fd = [] then s2 else dropWhile is_digit (drop 1 s2));
                    sign = (\<lambda>n. if neg then - int n else int n)
                in case lex_exponent s3 of
                     None \<Rightarrow>
                       if fd = [] then Some (TAtom (JInt (sign (digits_value ip))), s3)
                       else Some (TAtom (JFloat (sign (digits_value (ip @ fd)))
                                                (- int (length fd))), s3)
                   | Some (ev, s4) \<Rightarrow>
                       Some (TAtom (JFloat (sign (digits_value (ip @ fd)))
                                           (ev - int (length fd))), s4)))"

text \<open>The token at the head of a text that does not start with white space.\<close>

definition next_token :: "string \<Rightarrow> (token \<times> string) option" where
  "next_token s =
     (case s of
        [] \<Rightarrow> None
      | c # cs \<Rightarrow>
          if c = CHR ''{'' then Some (TLBrace, cs)
          else if c = CHR ''}'' then Some (TRBrace, cs)
          else if c = CHR ''['' then Some (TLBracket, cs)
          else if c = CHR '']'' then Some (TRBracket, cs)
          else if c = CHR '','' then Some (TComma, cs)
          else if c = CHR '':'' then Some (TColon, cs)
          else if c = CHR 0x22 then
            (case scanstring cs of
               None \<Rightarrow> None
             | Some (str, rest) \<Rightarrow> Some (TString str, rest))
          else if startswith s ''null'' then Some (TAtom JNull, drop 4 s)
          else if startswith s ''true'' then Some (TAtom (JBool True), drop 4 s)
          else if startswith s ''false'' then Some (TAtom (JBool False), drop 5 s)
          else
            (case lex_number s of
               Some r \<Rightarrow> Some r
             | None \<Rightarrow>
                 if startswith s ''NaN'' then Some (TAtom JNaN, drop 3 s)
                 else if startswith s ''Infinity'' then Some (TAtom (JInf False), drop 8 s)
                 else if startswith s ''-Infinity'' then Some (TAtom (JInf True), drop 9 s)
                 else None))"

lemma push_char_Some:
  "push_char c r = Some (str, rest) \<longleftrightarrow> (\<exists>str'. r = Some (str', rest) \<and> str = c # str')"
  by (auto simp: push_char_def split: option.splits)

lemma scanstring_shorter: "scanstring s = Some (str, rest) \<Longrightarrow> length rest < length s"
proof (induction s arbitrary: str rest rule: scanstring.induct)
  case 1
  then show ?case by simp
next
  case (2 c cs)
  show ?case
  proof (cases "c = CHR 0x22")
    case True
    with "2.prems" show ?thesis by simp
  next
    case quote: False
    show ?thesis
    proof (cases "c = CHR 0x5C")
      case False
      with quote "2.prems" obtain str' where "scanstring cs = Some (str', rest)"
        by (auto simp: push_char_Some split: if_splits)
      with "2.IH"(3) [OF quote False] "2.prems" quote False show ?thesis
        by (fastforce split: if_splits)
    next
      case True
      with quote "2.prems" obtain e es where cs: "cs = e # es"
        by (cases cs) auto
      show ?thesis
      proof (cases "e = CHR ''u''")
        case False
        with quote True cs "2.prems" obtain ch str' where
          "unescape e = Some ch" "scanstring es = Some (str', rest)"
          by (auto simp: push_char_Some split: option.splits)
        with "2.IH"(2) [OF quote True cs False] cs show ?thesis
          by fastforce
      next
        case u: True
        with quote True cs "2.prems" obtain h1 h2 h3 h4 r n str' where
          es: "es = h1 # h2 # h3 # h4 # r" and h: "hex4 h1 h2 h3 h4 = Some n" "n < 256"
          and r: "scanstring r = Some (str', rest)"
          by (auto simp: push_char_Some split: option.splits list.splits if_splits)
        from "2.IH"(1) [OF quote True cs u es refl refl refl h r] cs es show ?thesis
          by simp
      qed
    qed
  qed
qed

lemma lex_exponent_shorter: "lex_exponent s = Some (ev, rest) \<Longrightarrow> length rest \<le> length s"
proof -
  have dw: "length (dropWhile is_digit xs) \<le> length xs" for xs
    by (simp add: length_dropWhile_le)
  assume "lex_exponent s = Some (ev, rest)"
  then show ?thesis
    using dw le_Suc_eq
    by (fastforce simp: lex_exponent_def Let_def split: list.splits if_splits
                  intro: order_trans [OF dw])
qed

lemma lex_number_shorter: "lex_number s = Some (t, rest) \<Longrightarrow> length rest < length s"
proof -
  assume a: "lex_number s = Some (t, rest)"
  define s1 where "s1 = (if startswith s ''-'' then drop 1 s else s)"
  have s1_le: "length s1 \<le> length s"
    by (simp add: s1_def)
  from a obtain d ds where s1: "s1 = d # ds" and d: "is_digit d"
    by (cases s1) (auto simp: lex_number_def Let_def s1_def split: if_splits)
  define s2 where "s2 = (if d = CHR ''0'' then ds else dropWhile is_digit ds)"
  define fd where "fd = (if startswith s2 ''.'' then takeWhile is_digit (drop 1 s2) else [])"
  define s3 where "s3 = (if fd = [] then s2 else dropWhile is_digit (drop 1 s2))"
  have "length s2 \<le> length ds"
    by (simp add: s2_def length_dropWhile_le)
  moreover have "length s3 \<le> length s2"
  proof (cases "fd = []")
    case True
    then show ?thesis by (simp add: s3_def)
  next
    case False
    have "length (dropWhile is_digit (drop 1 s2)) \<le> length (drop 1 s2)"
      by (rule length_dropWhile_le)
    with False show ?thesis by (simp add: s3_def)
  qed
  ultimately have s3_lt: "length s3 < length s"
    using s1 s1_le by simp
  from a s1 d have "(lex_exponent s3 = None \<and> rest = s3)
      \<or> (\<exists>ev. lex_exponent s3 = Some (ev, rest))"
    unfolding lex_number_def Let_def s1_def [symmetric]
    by (auto simp: s2_def s3_def fd_def split: option.splits if_splits)
  then show ?thesis
    using s3_lt lex_exponent_shorter by fastforce
qed

lemma next_token_shorter: "next_token s = Some (t, rest) \<Longrightarrow> length rest < length s"
proof -
  assume a: "next_token s = Some (t, rest)"
  then obtain c cs where s: "s = c # cs"
    by (cases s) (auto simp: next_token_def)
  from a s show ?thesis
    unfolding next_token_def
    by (auto split: if_splits option.splits
             dest: scanstring_shorter lex_number_shorter startswith_length)
qed

text \<open>The tokens of a text, or \<open>None\<close> if some part of it is no token.\<close>

function tokenize :: "string \<Rightarrow> token list option" where
  "tokenize s =
     (case dropWhile is_json_ws s of
        [] \<Rightarrow> Some []
      | c # cs \<Rightarrow>
          (case next_token (c # cs) of
             None \<Rightarrow> None
           | Some (t, rest) \<Rightarrow>
               (case tokenize rest of None \<Rightarrow> None | Some ts \<Rightarrow> Some (t # ts))))"
  by pat_completeness auto
termination
proof (relation "measure length")
  show "wf (measure length)" by simp
next
  fix s :: string and c cs x t rest
  assume "dropWhile is_json_ws s = c # cs" and "next_token (c # cs) = Some x"
    and "(t, rest) = x"
  then have "length rest < length (dropWhile is_json_ws s)"
    using next_token_shorter [of "c # cs" t rest] by simp
  moreover have "length (dropWhile is_json_ws s) \<le> length s"
    by (rule length_dropWhile_le)
  ultimately show "(rest, s) \<in> measure length" by simp
qed

declare tokenize.simps [simp del]

text \<open>
  The grammar, as an automaton over the tokens. A frame is an enclosing container that
  waits for a value: an object with its members so far and the pending key, or an array
  with its elements so far.
\<close>

datatype frame =
    InObject "(string \<times> json) list" string
  | InArray "json list"

datatype pstate =
    ExpectValue "frame list"
  | ArrayStart "frame list"
  | ObjectStart "frame list"
  | ExpectKey "(string \<times> json) list" "frame list"
  | ExpectColon "(string \<times> json) list" string "frame list"
  | AfterMember "(string \<times> json) list" "frame list"
  | AfterElement "json list" "frame list"
  | Done json

text \<open>A value is complete: it goes into the innermost enclosing container, if any.\<close>

fun complete :: "json \<Rightarrow> frame list \<Rightarrow> pstate" where
  "complete v [] = Done v"
| "complete v (InObject ms k # st) = AfterMember (dict_set ms k v) st"
| "complete v (InArray xs # st) = AfterElement (xs @ [v]) st"

fun start_value :: "frame list \<Rightarrow> token \<Rightarrow> pstate option" where
  "start_value st (TAtom v) = Some (complete v st)"
| "start_value st (TString s) = Some (complete (JString s) st)"
| "start_value st TLBrace = Some (ObjectStart st)"
| "start_value st TLBracket = Some (ArrayStart st)"
| "start_value st _ = None"

fun step :: "pstate \<Rightarrow> token \<Rightarrow> pstate option" where
  "step (ExpectValue st) t = start_value st t"
| "step (ArrayStart st) t =
     (if t = TRBracket then Some (complete (JArray []) st)
      else start_value (InArray [] # st) t)"
| "step (ObjectStart st) t =
     (case t of
        TRBrace \<Rightarrow> Some (complete (JObject []) st)
      | TString k \<Rightarrow> Some (ExpectColon [] k st)
      | _ \<Rightarrow> None)"
| "step (ExpectKey ms st) t =
     (case t of TString k \<Rightarrow> Some (ExpectColon ms k st) | _ \<Rightarrow> None)"
| "step (ExpectColon ms k st) t =
     (if t = TColon then Some (ExpectValue (InObject ms k # st)) else None)"
| "step (AfterMember ms st) t =
     (case t of
        TComma \<Rightarrow> Some (ExpectKey ms st)
      | TRBrace \<Rightarrow> Some (complete (JObject ms) st)
      | _ \<Rightarrow> None)"
| "step (AfterElement xs st) t =
     (case t of
        TComma \<Rightarrow> Some (ExpectValue (InArray xs # st))
      | TRBracket \<Rightarrow> Some (complete (JArray xs) st)
      | _ \<Rightarrow> None)"
| "step (Done v) t = None"

fun run :: "pstate \<Rightarrow> token list \<Rightarrow> pstate option" where
  "run ps [] = Some ps"
| "run ps (t # ts) = (case step ps t of None \<Rightarrow> None | Some ps' \<Rightarrow> run ps' ts)"

definition json_loads :: "string \<Rightarrow> json option" where
  "json_loads s =
     (case tokenize s of
        None \<Rightarrow> None
      | Some ts \<Rightarrow> (case run (ExpectValue []) ts of Some (Done v) \<Rightarrow> Some v | _ \<Rightarrow> None))"

section \<open>The response parser (\<^verbatim>\<open>api_manager.py\<close>)\<close>

text \<open>A decoder failure is the exception \<^verbatim>\<open>JSONDecodeError\<close>.\<close>

definition decode :: "(string \<Rightarrow> json option) \<Rightarrow> string \<Rightarrow> error + json" where
  "decode loads s = (case loads s of None \<Rightarrow> Inl JSONDecodeError | Some v \<Rightarrow> Inr v)"

definition parse_clean_json :: "(string \<Rightarrow> json option) \<Rightarrow> string \<Rightarrow> error + json" where
  "parse_clean_json loads text = decode loads (strip text)"

text \<open>
  \<^verbatim>\<open>text.split(fence)[1].split('```')[0].strip()\<close>: what stands between the first
  occurrence of the opening fence and the next triple backtick.
\<close>

definition fenced_content :: "string \<Rightarrow> string \<Rightarrow> error + string" where
  "fenced_content text fence =
     (case index (split text fence) 1 of
        Inl e \<Rightarrow> Inl e
      | Inr after \<Rightarrow>
          (case index (split after ''```'') 0 of
             Inl e \<Rightarrow> Inl e
           | Inr inner \<Rightarrow> Inr (strip inner)))"

definition parse_markdown_json :: "(string \<Rightarrow> json option) \<Rightarrow> string \<Rightarrow> error + json" where
  "parse_markdown_json loads text =
     (if py_in ''```json'' text then
        (case fenced_content text ''```json'' of
           Inl e \<Rightarrow> Inl e
         | Inr json_content \<Rightarrow> decode loads json_content)
      else if py_in ''```'' text then
        (case fenced_content text ''```'' of
           Inl e \<Rightarrow> Inl e
         | Inr json_content \<Rightarrow> decode loads json_content)
      else Inl ValueError)"

text \<open>
  The loop of \<^verbatim>\<open>parse_partial_json\<close> over \<^verbatim>\<open>range(start, len(text))\<close>: the first argument
  is the text from position \<open>i\<close> on; the result is \<^verbatim>\<open>brace_count\<close> and \<^verbatim>\<open>end\<close> when
  the loop is left.
\<close>

fun brace_scan :: "string \<Rightarrow> int \<Rightarrow> nat \<Rightarrow> nat \<Rightarrow> int \<times> nat" where
  "brace_scan [] brace_count i end = (brace_count, end)"
| "brace_scan (c # cs) brace_count i end =
     (if c = CHR ''{'' then brace_scan cs (brace_count + 1) (i + 1) end
      else if c = CHR ''}'' then
        (if brace_count - 1 = 0 then (brace_count - 1, i + 1)
         else brace_scan cs (brace_count - 1) (i + 1) end)
      else brace_scan cs brace_count (i + 1) end)"

text \<open>
  \<^verbatim>\<open>json_str = text[start:end]\<close> of \<^verbatim>\<open>parse_partial_json\<close>, or the \<^verbatim>\<open>ValueError\<close> it
  raises when there is no opening brace or the count never returns to zero.
\<close>

definition brace_extract :: "string \<Rightarrow> error + string" where
  "brace_extract text =
     (case py_find text ''{'' of
        None \<Rightarrow> Inl ValueError
      | Some start \<Rightarrow>
          (case brace_scan (drop start text) 0 start start of
             (brace_count, end) \<Rightarrow>
               if brace_count \<noteq> 0 then Inl ValueError
               else Inr (take (end - start) (drop start text))))"

definition parse_partial_json :: "(string \<Rightarrow> json option) \<Rightarrow> string \<Rightarrow> error + json" where
  "parse_partial_json loads text =
     (case brace_extract text of
        Inl e \<Rightarrow> Inl e
      | Inr json_str \<Rightarrow> decode loads json_str)"

text \<open>
  The three substitutions of \<^verbatim>\<open>fix_common_json_issues\<close>.

  \<^verbatim>\<open>re.sub(r',(\s*[}\]])', r'\1', s)\<close> drops every comma that is followed, after any white
  space, by a closing brace or bracket. The matched text holds no other comma, so the
  scan goes on behind the dropped comma.
\<close>

fun remove_trailing_commas :: "string \<Rightarrow> string" where
  "remove_trailing_commas [] = []"
| "remove_trailing_commas (c # cs) =
     (if c = CHR '','' \<and>
         (case dropWhile is_space cs of
            [] \<Rightarrow> False
          | d # _ \<Rightarrow> d = CHR ''}'' \<or> d = CHR '']'')
      then remove_trailing_commas cs
      else c # remove_trailing_commas cs)"

text \<open>
  \<^verbatim>\<open>re.sub(r'(?<!\\)"(?![,\]\}:\s])', r'\\"', s)\<close> puts a backslash before every double
  quote that is not preceded by a backslash and not followed by one of \<^verbatim>\<open>, ] } :\<close> or a
  white-space character; a quote at the very end of the text has no such follower. The
  first argument is the character before the position, if any.
\<close>

definition quote_exempt :: "char \<Rightarrow> bool" where
  "quote_exempt d =
     (d = CHR '','' \<or> d = CHR '']'' \<or> d = CHR ''}'' \<or> d = CHR '':'' \<or> is_space d)"

fun escape_quotes :: "char option \<Rightarrow> string \<Rightarrow> string" where
  "escape_quotes prev [] = []"
| "escape_quotes prev (c # cs) =
     (if c = CHR 0x22 \<and> prev \<noteq> Some (CHR 0x5C) \<and>
         (case cs of [] \<Rightarrow> True | d # _ \<Rightarrow> \<not> quote_exempt d)
      then CHR 0x5C # CHR 0x22 # escape_quotes (Some c) cs
      else c # escape_quotes (Some c) cs)"

text \<open>\<^verbatim>\<open>re.sub(r'[\x00-\x1f\x7f-\x9f]', '', s)\<close>.\<close>

definition is_control :: "char \<Rightarrow> bool" where
  "is_control c =
     (let n = (of_char c :: nat) in n \<le> 31 \<or> (127 \<le> n \<and> n \<le> 159))"

definition remove_control :: "string \<Rightarrow> string" where
  "remove_control s = filter (\<lambda>c. \<not> is_control c) s"

definition fix_common_json_issues :: "string \<Rightarrow> string" where
  "fix_common_json_issues json_str =
     remove_control (escape_quotes None (remove_trailing_commas json_str))"

text \<open>
  The loop of \<^verbatim>\<open>parse_line_by_line_json\<close> over the lines: the lines collected from the
  first one whose trimmed form starts with a brace up to the first one that ends the
  accumulation.
\<close>

definition count :: "string \<Rightarrow> char \<Rightarrow> nat" where
  "count s c = length (filter (\<lambda>d. d = c) s)"

fun collect_lines :: "bool \<Rightarrow> string list \<Rightarrow> string list" where
  "collect_lines in_json [] = []"
| "collect_lines in_json (line # lines) =
     (if startswith (strip line) ''{'' \<or> in_json then
        (if endswith (strip line) ''}'' \<and> count line (CHR ''}'') \<ge> count line (CHR ''{'')
         then [line]
         else line # collect_lines True lines)
      else collect_lines in_json lines)"

definition parse_line_by_line_json ::
  "(string \<Rightarrow> json option) \<Rightarrow> string \<Rightarrow> error + json" where
  "parse_line_by_line_json loads text =
     (let json_lines = collect_lines False (split text ''\<newline>'')
      in if json_lines = [] then Inl ValueError
         else decode loads (fix_common_json_issues (join ''\<newline>'' json_lines)))"

text \<open>
  \<^verbatim>\<open>parse_json_response\<close>: the first strategy, in order, that returns without an
  exception and with a true value; \<open>None\<close> if there is none.
\<close>

fun first_success :: "(string \<Rightarrow> error + json) list \<Rightarrow> string \<Rightarrow> json option" where
  "first_success [] text = None"
| "first_success (strategy # strategies) text =
     (case strategy text of
        Inr result \<Rightarrow> if truthy result then Some result else first_success strategies text
      | Inl e \<Rightarrow> first_success strategies text)"

definition parse_json_response :: "(string \<Rightarrow> json option) \<Rightarrow> string \<Rightarrow> json option" where
  "parse_json_response loads response_text =
     first_success
       [parse_clean_json loads, parse_markdown_json loads,
        parse_partial_json loads, parse_line_by_line_json loads]
       response_text"

text \<open>
  A response that consists of a fenced block: the opening fence with its tag (\<^verbatim>\<open>json\<close> or
  nothing), a line break, the interior, a line break, the closing fence.
\<close>

definition fenced :: "string \<Rightarrow> string \<Rightarrow> string" where
  "fenced tag body = ''```'' @ tag @ ''\<newline>'' @ body @ ''\<newline>```''"

section \<open>The shared context (\<^verbatim>\<open>context.py\<close>)\<close>

text \<open>
  The five result fields are \<^verbatim>\<open>Optional[Dict]\<close> with default \<^verbatim>\<open>None\<close>: here \<open>json\<close>
  with \<open>JNull\<close> for \<^verbatim>\<open>None\<close>. The stage is a string in every context the program
  makes; it is a \<open>json\<close> value here because loading restores whatever the file holds.
\<close>

record project_context =
  project_name :: string
  requirements :: json
  architecture :: json
  codebase :: json
  test_results :: json
  deployment :: json
  created_at :: string
  current_stage :: json

text \<open>
  The constructor with \<^verbatim>\<open>__post_init__\<close>: \<open>now\<close> is what
  \<^verbatim>\<open>datetime.now().isoformat()\<close> returns at that moment; a \<^verbatim>\<open>created_at\<close> that is
  \<^verbatim>\<open>None\<close> or empty is replaced by it.
\<close>

definition ProjectContext :: "string \<Rightarrow> string option \<Rightarrow> string \<Rightarrow> project_context" where
  "ProjectContext name created now =
     \<lparr> project_name = name,
       requirements = JNull, architecture = JNull, codebase = JNull,
       test_results = JNull, deployment = JNull,
       created_at = (case created of
                       None \<Rightarrow> now
                     | Some t \<Rightarrow> if t = [] then now else t),
       current_stage = JString ''not_started'' \<rparr>"

section \<open>The remote agent client (\<^verbatim>\<open>api_manager.py\<close>)\<close>

text \<open>The two characters backslash and \<^verbatim>\<open>n\<close>, as the default records spell a line break.\<close>

definition bsn :: string where
  "bsn = [CHR 0x5C, CHR ''n'']"

definition default_planner :: json where
  \<open>default_planner =
     JObject
       [(''requirements'', JArray [JString ''Parse failed - manual review needed'']),
        (''user_stories'', JArray [JString ''Parse failed - manual review needed'']),
        (''acceptance_criteria'', JArray [JString ''Parse failed - manual review needed'']),
        (''timeline'', JString ''Parse failed - manual review needed''),
        (''status'', JString ''partial_failure'')]\<close>

definition default_architect :: json where
  \<open>default_architect =
     JObject
       [(''architecture_type'', JString ''microservices''),
        (''tech_stack'',
         JObject
          [(''backend'', JString ''FastAPI''),
           (''frontend'', JString ''React''),
           (''database'', JString ''PostgreSQL'')]),
        (''database_schema'', JString ''Parse failed - manual review needed''),
        (''api_design'', JString ''Parse failed - manual review needed''),
        (''status'', JString ''partial_failure'')]\<close>

definition default_developer :: json where
  \<open>default_developer =
     JObject
       [(''modules'',
         JArray
            [JString ''backend'',
             JString ''frontend'',
             JString ''database'']),
        (''file_structure'',
         JObject
          [(''backend/'', JString ''FastAPI application structure''),
           (''frontend/'', JString ''React application structure''),
           (''database/'', JString ''Database migration files'')]),
        (''code_files'',
         JObject
          [(''README.md'',
            JString (''# Project generated with parsing issues'' @ bsn
                      @ ''Manual review required.'')),
           (''main.py'',
            JString (''# Basic FastAPI app'' @ bsn @ ''from fastapi import FastAPI'' @ bsn
                      @ ''app = FastAPI()'' @ bsn @ bsn
                      @ ''@app.get('/')'' @ bsn @ ''def read_root():''
                      @ bsn @ ''    return {'Hello': 'World'}'')),
           (''requirements.txt'',
            JString (''fastapi'' @ bsn @ ''uvicorn'' @ bsn @ ''sqlalchemy'' @ bsn
                      @ ''psycopg2''))]),
        (''dependencies'',
         JArray [JString ''fastapi'', JString ''react'', JString ''postgresql'']),
        (''status'', JString ''partial_failure'')]\<close>

definition default_reviewer :: json where
  \<open>default_reviewer =
     JObject
       [(''code_quality_score'', JInt 0),
        (''issues'', JArray [JString ''JSON parsing failed - manual code review required'']),
        (''suggestions'',
         JArray
            [JString ''Fix JSON parsing issues'',
             JString ''Manual code review needed'']),
        (''test_files'',
         JObject
          [(''test_main.py'',
            JString (''import pytest'' @ bsn
                      @ ''from fastapi.testclient import TestClient''
                      @ bsn @ ''from main import app'' @ bsn @ bsn
                      @ ''client = TestClient(app)'' @ bsn @ bsn
                      @ ''def test_read_root():'' @ bsn
                      @ ''    response = client.get('/')'' @ bsn
                      @ ''    assert response.status_code == 200''
                      @ bsn
                      @ ''    assert response.json() == {'Hello': 'World'}''))]),
        (''security_report'', JString ''Parse failed - manual review needed''),
        (''status'', JString ''partial_failure'')]\<close>

definition default_devops :: json where
  \<open>default_devops =
     JObject
       [(''docker_files'',
         JObject
          [(''Dockerfile'',
            JString (''FROM python:3.9'' @ bsn @ ''WORKDIR /app'' @ bsn
                      @ ''COPY requirements.txt .'' @ bsn
                      @ ''RUN pip install -r requirements.txt'' @ bsn
                      @ ''COPY . .'' @ bsn @ ''EXPOSE 8000'' @ bsn
                      @ ''CMD ["uvicorn", "main:app", "--host", "0.0.0.0", "--port", "8000"]'')),
           (''docker-compose.yml'',
            JString (''version: '3.8'' @ [CHR 0x27] @ bsn @ ''services:'' @ bsn @ ''  web:'' @ bsn
                      @ ''    build: .'' @ bsn @ ''    ports:'' @ bsn
                      @ ''      - "8000:8000"'' @ bsn @ ''  db:'' @ bsn
                      @ ''    image: postgres:13'' @ bsn
                      @ ''    environment:'' @ bsn
                      @ ''      POSTGRES_DB: app'' @ bsn
                      @ ''      POSTGRES_USER: user'' @ bsn
                      @ ''      POSTGRES_PASSWORD: password''))]),
        (''ci_cd_config'',
         JObject
          [(''.github/workflows/deploy.yml'',
            JString (''name: Deploy'' @ bsn @ ''on:'' @ bsn @ ''  push:'' @ bsn
                      @ ''    branches: [main]'' @ bsn @ ''jobs:''
                      @ bsn @ ''  deploy:'' @ bsn
                      @ ''    runs-on: ubuntu-latest'' @ bsn
                      @ ''    steps:'' @ bsn
                      @ ''      - uses: actions/checkout@v2'' @ bsn
                      @ ''      - name: Build and Deploy'' @ bsn
                      @ ''        run: |'' @ bsn
                      @ ''          docker build -t app .'' @ bsn
                      @ ''          docker run -d -p 8000:8000 app''))]),
        (''k8s_manifests'',
         JObject
          [(''deployment.yaml'',
            JString (''apiVersion: apps/v1'' @ bsn @ ''kind: Deployment'' @ bsn
                      @ ''metadata:'' @ bsn @ ''  name: app'' @ bsn
                      @ ''spec:'' @ bsn @ ''  replicas: 3'' @ bsn
                      @ ''  selector:'' @ bsn @ ''    matchLabels:''
                      @ bsn @ ''      app: app'' @ bsn
                      @ ''  template:'' @ bsn @ ''    metadata:'' @ bsn
                      @ ''      labels:'' @ bsn @ ''        app: app''
                      @ bsn @ ''    spec:'' @ bsn
                      @ ''      containers:'' @ bsn
                      @ ''      - name: app'' @ bsn
                      @ ''        image: app:latest'' @ bsn
                      @ ''        ports:'' @ bsn
                      @ ''        - containerPort: 8000''))]),
        (''deployment_guide'', JString ''Parse failed - manual review needed''),
        (''status'', JString ''partial_failure'')]\<close>

definition default_structures :: "(string \<times> json) list" where
  "default_structures =
     [(''planner'', default_planner),
      (''architect'', default_architect),
      (''developer'', default_developer),
      (''reviewer'', default_reviewer),
      (''devops'', default_devops)]"

definition get_default_structure :: "string \<Rightarrow> json" where
  "get_default_structure model_name =
     (case map_of default_structures model_name of
        Some d \<Rightarrow> d
      | None \<Rightarrow> JObject [(''error'', JString ''Unknown model''), (''status'', JString ''failure'')])"

text \<open>
  The keys of \<^verbatim>\<open>system_prompts\<close>, in the order in which \<^verbatim>\<open>setup_models\<close> gives one
  model to each API key. With more than five keys the constructor raises
  \<^verbatim>\<open>IndexError\<close>; with fewer, the later roles have no model.
\<close>

definition role_names :: "string list" where
  "role_names = [''planner'', ''architect'', ''developer'', ''reviewer'', ''devops'']"

definition setup_models :: "nat \<Rightarrow> error + string list" where
  "setup_models n_keys = (if n_keys \<le> 5 then Inr (take n_keys role_names) else Inl IndexError)"

text \<open>
  What the remote producer does on one call: \<open>Fails\<close> when \<^verbatim>\<open>generate_content\<close> or
  reading \<^verbatim>\<open>response.text\<close> raises, \<open>Responds text\<close> otherwise.
\<close>

datatype outcome = Fails | Responds string

text \<open>
  What a run leaves behind, in order: a stage was entered (with the context as it was at
  that moment), the remote producer was called for a role, the client slept for a number
  of seconds.
\<close>

datatype event =
    StageStart nat project_context
  | RemoteCall string
  | Sleep nat

text \<open>
  One pass through the \<^verbatim>\<open>try\<close> block of \<^verbatim>\<open>call_api\<close>. Looking up the role's prompt or
  its model raises \<^verbatim>\<open>KeyError\<close> before the producer is called.
\<close>

datatype attempt_result = Parsed json | NoResult | Raised

definition attempt_once ::
  "(string \<Rightarrow> json option) \<Rightarrow> string list \<Rightarrow> outcome \<Rightarrow> string \<Rightarrow> attempt_result \<times> event list"
where
  "attempt_once loads models out model_name =
     (if model_name \<notin> set role_names then (Raised, [])
      else if model_name \<notin> set models then (Raised, [])
      else case out of
             Fails \<Rightarrow> (Raised, [RemoteCall model_name])
           | Responds text \<Rightarrow>
               (case parse_json_response loads (strip text) of
                  None \<Rightarrow> (NoResult, [RemoteCall model_name])
                | Some result \<Rightarrow>
                    if truthy result then (Parsed result, [RemoteCall model_name])
                    else (NoResult, [RemoteCall model_name])))"

definition max_retries :: nat where
  "max_retries = 3"

text \<open>
  The \<^verbatim>\<open>for attempt in range(max_retries)\<close> loop over the attempts that are left:
  \<open>producer attempt\<close> is what the producer does on that attempt. A parsed result is
  returned at once; a result that is absent goes on to the next attempt; an exception
  sleeps \<open>2 ^ attempt\<close> seconds and goes on if the attempt is not the last, and returns
  the default record if it is. Leaving the loop returns the default record.
\<close>

fun call_api_loop ::
  "(string \<Rightarrow> json option) \<Rightarrow> string list \<Rightarrow> (nat \<Rightarrow> outcome) \<Rightarrow> string \<Rightarrow> nat list
     \<Rightarrow> json \<times> event list"
where
  "call_api_loop loads models producer model_name [] = (get_default_structure model_name, [])"
| "call_api_loop loads models producer model_name (attempt # rest) =
     (case attempt_once loads models (producer attempt) model_name of
        (Parsed result, evs) \<Rightarrow> (result, evs)
      | (NoResult, evs) \<Rightarrow>
          (case call_api_loop loads models producer model_name rest of
             (r, evs') \<Rightarrow> (r, evs @ evs'))
      | (Raised, evs) \<Rightarrow>
          if attempt < max_retries - 1 then
            (case call_api_loop loads models producer model_name rest of
               (r, evs') \<Rightarrow> (r, evs @ Sleep (2 ^ attempt) # evs'))
          else (get_default_structure model_name, evs))"

definition call_api ::
  "(string \<Rightarrow> json option) \<Rightarrow> string list \<Rightarrow> (nat \<Rightarrow> outcome) \<Rightarrow> string \<Rightarrow> json \<times> event list"
where
  "call_api loads models producer model_name =
     call_api_loop loads models producer model_name [0..<max_retries]"

text \<open>Reading a trace.\<close>

fun is_remote_call :: "event \<Rightarrow> bool" where
  "is_remote_call (RemoteCall r) = True"
| "is_remote_call _ = False"

definition remote_calls :: "event list \<Rightarrow> nat" where
  "remote_calls evs = length (filter is_remote_call evs)"

fun sleeps :: "event list \<Rightarrow> nat list" where
  "sleeps [] = []"
| "sleeps (Sleep n # evs) = n # sleeps evs"
| "sleeps (_ # evs) = sleeps evs"

text \<open>The stages entered in a trace, each with the context it was entered with.\<close>

fun starts :: "event list \<Rightarrow> (nat \<times> project_context) list" where
  "starts [] = []"
| "starts (StageStart n c # evs) = (n, c) # starts evs"
| "starts (e # evs) = starts evs"

text \<open>
  An attempt fails when the producer errors or when no strategy recovers a record from
  what it returned.
\<close>

definition attempt_failed :: "(string \<Rightarrow> json option) \<Rightarrow> outcome \<Rightarrow> bool" where
  "attempt_failed loads out =
     (case out of
        Fails \<Rightarrow> True
      | Responds text \<Rightarrow> parse_json_response loads (strip text) = None)"

section \<open>Operations of the Python runtime on decoded values\<close>

text \<open>
  The stages apply dictionary and list operations to whatever the parser returned. On a
  value of another type these raise, and a stage that raises ends the run, so each is
  modelled with the exception it raises.

  \<^verbatim>\<open>d.get(key, dflt)\<close>: only a dictionary has the method.
\<close>

fun py_get :: "json \<Rightarrow> string \<Rightarrow> json \<Rightarrow> error + json" where
  "py_get (JObject kvs) key dflt =
     Inr (case map_of kvs key of None \<Rightarrow> dflt | Some v \<Rightarrow> v)"
| "py_get _ key dflt = Inl AttributeError"

text \<open>
  \<^verbatim>\<open>for x in v\<close>: the elements of a list, the characters of a string, the keys of a
  dictionary; anything else is not iterable.
\<close>

fun py_iter :: "json \<Rightarrow> error + json list" where
  "py_iter (JArray xs) = Inr xs"
| "py_iter (JString s) = Inr (map (\<lambda>c. JString [c]) s)"
| "py_iter (JObject kvs) = Inr (map (\<lambda>kv. JString (fst kv)) kvs)"
| "py_iter _ = Inl TypeError"

text \<open>\<^verbatim>\<open>key in v\<close> for a string \<open>key\<close>.\<close>

fun py_contains :: "string \<Rightarrow> json \<Rightarrow> error + bool" where
  "py_contains key (JObject kvs) = Inr (key \<in> set (map fst kvs))"
| "py_contains key (JArray xs) = Inr (JString key \<in> set xs)"
| "py_contains key (JString s) = Inr (py_in key s)"
| "py_contains key _ = Inl TypeError"

text \<open>\<^verbatim>\<open>v[key]\<close> for a string \<open>key\<close>.\<close>

fun py_getitem :: "json \<Rightarrow> string \<Rightarrow> error + json" where
  "py_getitem (JObject kvs) key =
     (case map_of kvs key of None \<Rightarrow> Inl KeyError | Some v \<Rightarrow> Inr v)"
| "py_getitem _ key = Inl TypeError"

text \<open>\<^verbatim>\<open>v.items()\<close>.\<close>

fun py_items :: "json \<Rightarrow> error + (string \<times> json) list" where
  "py_items (JObject kvs) = Inr kvs"
| "py_items _ = Inl AttributeError"

text \<open>Lists and dictionaries cannot be dictionary keys or set elements.\<close>

fun hashable :: "json \<Rightarrow> bool" where
  "hashable (JArray xs) = False"
| "hashable (JObject kvs) = False"
| "hashable _ = True"

fun is_str :: "json \<Rightarrow> bool" where
  "is_str (JString s) = True"
| "is_str _ = False"

section \<open>The stage engine (\<^verbatim>\<open>workflow.py\<close>)\<close>

text \<open>
  What a run depends on besides the context: the library decoder, the roles that have a
  model, what the remote producer does on each call, and the order in which
  \<^verbatim>\<open>list(set(xs))\<close> lists the distinct elements, which the language leaves open. The
  producer is indexed by the call it answers: the role, the number of the task within the
  stage (the module index in the code stage, 0 elsewhere) and the attempt. The prompts
  play no part beyond that, so neither the RAG context nor the user's text appears.

  The file system is part of the environment too. The stages create directories and
  write files under names taken from the answers (\<^verbatim>\<open>create_code_files\<close>,
  \<^verbatim>\<open>create_test_files\<close>, \<^verbatim>\<open>create_deployment_files_safe\<close>); each such call either is
  performed or raises. For a path with the character 0 the interpreter raises before the
  operating system is asked; otherwise the operating system decides, and \<open>env_fs\<close> says
  for each call whether it performs it or refuses it with an \<^verbatim>\<open>OSError\<close> (a missing parent
  directory, a directory where a file is to be written, a name that is too long, a full
  disk). A call is identified by the stage, the number of the module (code stage) or of
  the folder (deployment stage), the number of the file within it, and the kind of call,
  so nothing is assumed about how the answers of the operating system depend on the
  paths or on one another. Paths are POSIX paths.

  The program's own files (\<^verbatim>\<open>save_context\<close>, \<^verbatim>\<open>save_stage_output\<close>, the RAG index), which
  have fixed names in directories the constructor has made, are taken to be written;
  these calls do not change the context.
\<close>

datatype fs_op =
    MakeDir | MakeParents | OpenFile | WriteFile | OpenErrorFile | WriteErrorFile

record env =
  env_loads :: "string \<Rightarrow> json option"
  env_models :: "string list"
  env_producer :: "string \<Rightarrow> nat \<Rightarrow> nat \<Rightarrow> outcome"
  env_set_order :: "json list \<Rightarrow> json list"
  env_fs :: "nat \<Rightarrow> nat \<Rightarrow> nat \<Rightarrow> fs_op \<Rightarrow> bool"

text \<open>
  A step of a run either returns or raises, and leaves a trace. After an exception the
  in-memory context is not followed any further.
\<close>

definition and_then ::
  "(error + 'a) \<times> event list \<Rightarrow> ('a \<Rightarrow> (error + 'b) \<times> event list) \<Rightarrow> (error + 'b) \<times> event list"
where
  "and_then m f =
     (case m of
        (Inl e, evs) \<Rightarrow> (Inl e, evs)
      | (Inr x, evs) \<Rightarrow> (case f x of (r, evs') \<Rightarrow> (r, evs @ evs')))"

definition agent_call :: "env \<Rightarrow> string \<Rightarrow> nat \<Rightarrow> json \<times> event list" where
  "agent_call env role task =
     call_api (env_loads env) (env_models env) (env_producer env role task) role"

definition stage_1_requirements ::
  "env \<Rightarrow> string option \<Rightarrow> project_context \<Rightarrow> (error + project_context) \<times> event list"
where
  "stage_1_requirements env user_input ctx =
     (case agent_call env ''planner'' 0 of
        (result, evs) \<Rightarrow>
          (Inr (ctx\<lparr>current_stage := JString ''requirements'', requirements := result\<rparr>),
           StageStart 1 ctx # evs))"

definition stage_2_architecture ::
  "env \<Rightarrow> project_context \<Rightarrow> (error + project_context) \<times> event list"
where
  "stage_2_architecture env ctx =
     (case agent_call env ''architect'' 0 of
        (result, evs) \<Rightarrow>
          (Inr (ctx\<lparr>current_stage := JString ''architecture'', architecture := result\<rparr>),
           StageStart 2 ctx # evs))"

text \<open>
  The code stage. \<^verbatim>\<open>asyncio.gather(*tasks, return_exceptions=True)\<close> returns, for each
  task, its result or the exception it raised. \<^verbatim>\<open>generate_module_code\<close> is \<^verbatim>\<open>call_api\<close>
  for the developer role, so in a run every task returns; the aggregation nevertheless
  handles a raised task, and is modelled for both. With \<^verbatim>\<open>return_exceptions=True\<close> the
  call of \<^verbatim>\<open>gather\<close> itself does not raise, so the handler around it is never entered.
  The events of the tasks are listed task by task.
\<close>

datatype task_result = Returned json | RaisedException

definition generate_module_code :: "env \<Rightarrow> nat \<Rightarrow> json \<times> event list" where
  "generate_module_code env i = agent_call env ''developer'' i"

fun gather_modules :: "env \<Rightarrow> nat \<Rightarrow> json list \<Rightarrow> task_result list \<times> event list" where
  "gather_modules env i [] = ([], [])"
| "gather_modules env i (module # modules) =
     (case generate_module_code env i of
        (result, evs) \<Rightarrow>
          (case gather_modules env (Suc i) modules of
             (results, evs') \<Rightarrow> (Returned result # results, evs @ evs')))"

text \<open>
  \<^verbatim>\<open>combined_result\<close> while it is built. Its \<^verbatim>\<open>modules\<close> dictionary is keyed by the
  elements of the module list, whatever they are; \<^verbatim>\<open>file_structure\<close> stays empty.
\<close>

record combined_result =
  c_modules :: "(json \<times> json) list"
  c_dependencies :: "json list"
  c_status :: string

definition default_modules :: json where
  "default_modules = JArray [JString ''backend'', JString ''frontend'', JString ''database'']"

text \<open>The loop \<^verbatim>\<open>for i, module in enumerate(modules)\<close> over the results.\<close>

fun combine_loop ::
  "json list \<Rightarrow> task_result list \<Rightarrow> combined_result \<Rightarrow> error + combined_result"
where
  "combine_loop [] results acc = Inr acc"
| "combine_loop (module # modules) [] acc = Inl IndexError"
| "combine_loop (module # modules) (RaisedException # results) acc =
     (if \<not> hashable module then Inl TypeError
      else combine_loop modules results
             (acc\<lparr>c_modules := dict_set (c_modules acc) module (get_default_structure ''developer''),
                  c_status := ''partial_failure''\<rparr>))"
| "combine_loop (module # modules) (Returned result # results) acc =
     (if \<not> hashable module then Inl TypeError
      else case py_get result ''dependencies'' (JArray []) of
             Inl e \<Rightarrow> Inl e
           | Inr module_deps \<Rightarrow>
               (case py_iter module_deps of
                  Inl e \<Rightarrow> Inl e
                | Inr deps \<Rightarrow>
                    combine_loop modules results
                      (acc\<lparr>c_modules := dict_set (c_modules acc) module result,
                           c_dependencies := c_dependencies acc @ deps\<rparr>)))"

text \<open>
  The aggregation, from the initial \<^verbatim>\<open>combined_result\<close> to the removal of duplicate
  dependencies; \<^verbatim>\<open>set(xs)\<close> raises when an element is a list or a dictionary.
\<close>

definition combine_results ::
  "(json list \<Rightarrow> json list) \<Rightarrow> json list \<Rightarrow> task_result list \<Rightarrow> error + combined_result"
where
  "combine_results set_order modules results =
     (case combine_loop modules results
             \<lparr>c_modules = [], c_dependencies = [], c_status = ''completed''\<rparr> of
        Inl e \<Rightarrow> Inl e
      | Inr combined \<Rightarrow>
          if list_all hashable (c_dependencies combined)
          then Inr (combined\<lparr>c_dependencies := set_order (c_dependencies combined)\<rparr>)
          else Inl TypeError)"

text \<open>
  Paths. \<^verbatim>\<open>pathlib\<close> splits a path at the slashes and drops the empty components and the
  components \<^verbatim>\<open>.\<close>; the parent of a path is the path without its last component. The
  directories of the project have no character 0 in their names (the constructor has
  made them), so the parent of \<^verbatim>\<open>directory / file_path\<close> has one exactly when a component
  of \<open>file_path\<close> other than the last has one, and the path itself exactly when
  \<open>file_path\<close> has one.
\<close>

definition has_nul :: "string \<Rightarrow> bool" where
  "has_nul s \<longleftrightarrow> CHR 0x00 \<in> set s"

definition path_parts :: "string \<Rightarrow> string list" where
  "path_parts s = filter (\<lambda>x. x \<noteq> [] \<and> x \<noteq> ''.'') (split s ''/'')"

definition parent_has_nul :: "string \<Rightarrow> bool" where
  "parent_has_nul file_path \<longleftrightarrow> list_ex has_nul (butlast (path_parts file_path))"

text \<open>
  Writing one file of a dictionary of files, as \<^verbatim>\<open>create_code_files\<close> and
  \<^verbatim>\<open>create_test_files\<close> do it:
  \<^verbatim>\<open>full_path.parent.mkdir(parents=True, exist_ok=True)\<close>, then \<^verbatim>\<open>open(full_path, 'w')\<close>,
  then \<^verbatim>\<open>f.write(file_content)\<close>, which raises \<^verbatim>\<open>TypeError\<close> unless the content is a
  string. \<open>os\<close> answers for the calls made for this file.
\<close>

definition write_file :: "(fs_op \<Rightarrow> bool) \<Rightarrow> string \<Rightarrow> json \<Rightarrow> error + unit" where
  "write_file os file_path file_content =
     (if parent_has_nul file_path then Inl NullByteError
      else if \<not> os MakeParents then Inl OSError
      else if has_nul file_path then Inl NullByteError
      else if \<not> os OpenFile then Inl OSError
      else if \<not> is_str file_content then Inl TypeError
      else if \<not> os WriteFile then Inl OSError
      else Inr ())"

text \<open>The loop over the files of a dictionary; \<open>j\<close> is the number of the next file.\<close>

fun write_files :: "(nat \<Rightarrow> fs_op \<Rightarrow> bool) \<Rightarrow> nat \<Rightarrow> (string \<times> json) list \<Rightarrow> error + unit" where
  "write_files os j [] = Inr ()"
| "write_files os j ((file_path, file_content) # files) =
     (case write_file (os j) file_path file_content of
        Inl e \<Rightarrow> Inl e
      | Inr u \<Rightarrow> write_files os (Suc j) files)"

text \<open>
  \<^verbatim>\<open>create_code_files\<close>, from module number \<open>i\<close> on. Joining the module name to the
  directory raises unless the name is a string. \<^verbatim>\<open>module_dir.mkdir(exist_ok=True)\<close> makes
  no parent directories: for a name with a slash it depends on what is there already.
\<close>

fun create_code_files ::
  "(nat \<Rightarrow> nat \<Rightarrow> fs_op \<Rightarrow> bool) \<Rightarrow> nat \<Rightarrow> (json \<times> json) list \<Rightarrow> error + unit"
where
  "create_code_files os i [] = Inr ()"
| "create_code_files os i ((module_name, module_data) # rest) =
     (case module_name of
        JString name \<Rightarrow>
          if has_nul name then Inl NullByteError
          else if \<not> os i 0 MakeDir then Inl OSError
          else (case py_contains ''code_files'' module_data of
                  Inl e \<Rightarrow> Inl e
                | Inr False \<Rightarrow> create_code_files os (Suc i) rest
                | Inr True \<Rightarrow>
                    (case py_getitem module_data ''code_files'' of
                       Inl e \<Rightarrow> Inl e
                     | Inr code_files \<Rightarrow>
                         (case py_items code_files of
                            Inl e \<Rightarrow> Inl e
                          | Inr files \<Rightarrow>
                              (case write_files (os i) 0 files of
                                 Inl e \<Rightarrow> Inl e
                               | Inr u \<Rightarrow> create_code_files os (Suc i) rest))))
      | _ \<Rightarrow> Inl TypeError)"

text \<open>The combined result as the value stored in the context, once all keys are strings.\<close>

fun str_keys :: "(json \<times> json) list \<Rightarrow> (string \<times> json) list option" where
  "str_keys [] = Some []"
| "str_keys ((JString k, v) # kvs) =
     (case str_keys kvs of None \<Rightarrow> None | Some r \<Rightarrow> Some ((k, v) # r))"
| "str_keys _ = None"

definition codebase_json :: "(string \<times> json) list \<Rightarrow> json list \<Rightarrow> string \<Rightarrow> json" where
  "codebase_json modules dependencies status =
     JObject
       [(''modules'', JObject modules),
        (''file_structure'', JObject []),
        (''dependencies'', JArray dependencies),
        (''status'', JString status)]"

text \<open>
  What the code stage does with the gathered results: aggregate them, write the code
  files, store the combined result in the context.
\<close>

definition finish_code_generation ::
  "(json list \<Rightarrow> json list) \<Rightarrow> (nat \<Rightarrow> nat \<Rightarrow> fs_op \<Rightarrow> bool) \<Rightarrow> json list
     \<Rightarrow> task_result list \<Rightarrow> project_context \<Rightarrow> error + project_context"
where
  "finish_code_generation set_order os modules results ctx =
     (case combine_results set_order modules results of
        Inl e \<Rightarrow> Inl e
      | Inr combined \<Rightarrow>
          (case create_code_files os 0 (c_modules combined) of
             Inl e \<Rightarrow> Inl e
           | Inr u \<Rightarrow>
               (case str_keys (c_modules combined) of
                  None \<Rightarrow> Inl TypeError
                | Some modules_dict \<Rightarrow>
                    Inr (ctx\<lparr>current_stage := JString ''code'',
                             codebase := codebase_json modules_dict
                               (c_dependencies combined) (c_status combined)\<rparr>))))"

definition stage_3_code_generation ::
  "env \<Rightarrow> project_context \<Rightarrow> (error + project_context) \<times> event list"
where
  "stage_3_code_generation env ctx =
     (case py_get (architecture ctx) ''modules'' default_modules of
        Inl e \<Rightarrow> (Inl e, [StageStart 3 ctx])
      | Inr modules_value \<Rightarrow>
          (case py_iter modules_value of
             Inl e \<Rightarrow> (Inl e, [StageStart 3 ctx])
           | Inr modules \<Rightarrow>
               (case gather_modules env 0 modules of
                  (results, evs) \<Rightarrow>
                    (finish_code_generation (env_set_order env) (env_fs env 3) modules results ctx,
                     StageStart 3 ctx # evs))))"

text \<open>
  What the aggregation needs of the record a module task returned: its dependencies (an
  empty list if it declares none) can be iterated and put into a set; and its code files,
  if it has any, can be written, that is, writing them raises nothing when the operating
  system performs every call (they form a dictionary, no path has the character 0 and
  every content is a string).
\<close>

definition module_deps :: "json \<Rightarrow> json list option" where
  "module_deps module_data =
     (case py_get module_data ''dependencies'' (JArray []) of
        Inl e \<Rightarrow> None
      | Inr v \<Rightarrow>
          (case py_iter v of
             Inl e \<Rightarrow> None
           | Inr deps \<Rightarrow> if list_all hashable deps then Some deps else None))"

definition code_files_writable :: "json \<Rightarrow> bool" where
  "code_files_writable module_data \<longleftrightarrow>
     create_code_files (\<lambda>i j op. True) 0 [(JString [], module_data)] = Inr ()"

definition create_test_files :: "(nat \<Rightarrow> fs_op \<Rightarrow> bool) \<Rightarrow> json \<Rightarrow> error + unit" where
  "create_test_files os test_data =
     (case py_items test_data of Inl e \<Rightarrow> Inl e | Inr files \<Rightarrow> write_files os 0 files)"

definition stage_4_review_and_test ::
  "env \<Rightarrow> project_context \<Rightarrow> (error + project_context) \<times> event list"
where
  "stage_4_review_and_test env ctx =
     (case agent_call env ''reviewer'' 0 of
        (result, evs) \<Rightarrow>
          (case py_contains ''test_files'' result of
             Inl e \<Rightarrow> (Inl e, StageStart 4 ctx # evs)
           | Inr False \<Rightarrow>
               (Inr (ctx\<lparr>current_stage := JString ''review'', test_results := result\<rparr>),
                StageStart 4 ctx # evs)
           | Inr True \<Rightarrow>
               (case py_getitem result ''test_files'' of
                  Inl e \<Rightarrow> (Inl e, StageStart 4 ctx # evs)
                | Inr test_data \<Rightarrow>
                    (case create_test_files (env_fs env 4 0) test_data of
                       Inl e \<Rightarrow> (Inl e, StageStart 4 ctx # evs)
                     | Inr u \<Rightarrow>
                         (Inr (ctx\<lparr>current_stage := JString ''review'', test_results := result\<rparr>),
                          StageStart 4 ctx # evs)))))"

text \<open>
  \<^verbatim>\<open>create_deployment_files_safe\<close>. The file name is cleaned with
  \<^verbatim>\<open>re.sub(r'[<>:"/\\|?*]', '_', file_name)\<close>, which leaves no slash, so the parent of the
  file is the folder; the character 0 is not among those replaced.
\<close>

definition safe_name :: "string \<Rightarrow> string" where
  "safe_name file_name =
     map (\<lambda>c. if c \<in> set (''<>:/|?*'' @ [CHR 0x22, CHR 0x5C]) then CHR ''_'' else c) file_name"

text \<open>
  One file. The body of the \<^verbatim>\<open>try\<close> makes the parent directory, opens the file and
  writes the content (converted with \<^verbatim>\<open>str\<close>, so any content will do). Whatever it
  raises is caught, and the handler then writes a file \<^verbatim>\<open>error_<name>.txt\<close> in the same
  folder, outside any \<^verbatim>\<open>try\<close>: what that raises leaves the function.
\<close>

definition write_deployment_file :: "(fs_op \<Rightarrow> bool) \<Rightarrow> string \<Rightarrow> json \<Rightarrow> error + unit" where
  "write_deployment_file os file_name file_content =
     (let safe_file_name = safe_name file_name;
          attempt =
            (if \<not> os MakeParents then Inl OSError
             else if has_nul safe_file_name then Inl NullByteError
             else if \<not> os OpenFile then Inl OSError
             else if \<not> os WriteFile then Inl OSError
             else Inr ())
      in case attempt of
           Inr u \<Rightarrow> Inr ()
         | Inl e \<Rightarrow>
             if has_nul (''error_'' @ safe_file_name @ ''.txt'') then Inl NullByteError
             else if \<not> os OpenErrorFile then Inl OSError
             else if \<not> os WriteErrorFile then Inl OSError
             else Inr ())"

fun write_deployment_files ::
  "(nat \<Rightarrow> fs_op \<Rightarrow> bool) \<Rightarrow> nat \<Rightarrow> (string \<times> json) list \<Rightarrow> error + unit"
where
  "write_deployment_files os j [] = Inr ()"
| "write_deployment_files os j ((file_name, file_content) # files) =
     (case write_deployment_file (os j) file_name file_content of
        Inl e \<Rightarrow> Inl e
      | Inr u \<Rightarrow> write_deployment_files os (Suc j) files)"

text \<open>
  The loop over the three folders, from folder number \<open>k\<close> on. The membership test and
  the subscript can raise, and so can \<^verbatim>\<open>folder_path.mkdir(parents=True, exist_ok=True)\<close>,
  which stands outside the \<^verbatim>\<open>try\<close>; a value that is not a dictionary is skipped.
\<close>

fun create_deployment_files_safe ::
  "(nat \<Rightarrow> nat \<Rightarrow> fs_op \<Rightarrow> bool) \<Rightarrow> nat \<Rightarrow> string list \<Rightarrow> json \<Rightarrow> error + unit"
where
  "create_deployment_files_safe os k [] deployment_data = Inr ()"
| "create_deployment_files_safe os k (data_key # data_keys) deployment_data =
     (case py_contains data_key deployment_data of
        Inl e \<Rightarrow> Inl e
      | Inr False \<Rightarrow> create_deployment_files_safe os (Suc k) data_keys deployment_data
      | Inr True \<Rightarrow>
          if \<not> os k 0 MakeDir then Inl OSError
          else (case py_getitem deployment_data data_key of
                  Inl e \<Rightarrow> Inl e
                | Inr (JObject files_data) \<Rightarrow>
                    (case write_deployment_files (os k) 0 files_data of
                       Inl e \<Rightarrow> Inl e
                     | Inr u \<Rightarrow>
                         create_deployment_files_safe os (Suc k) data_keys deployment_data)
                | Inr _ \<Rightarrow> create_deployment_files_safe os (Suc k) data_keys deployment_data))"

definition file_mappings :: "string list" where
  "file_mappings = [''docker_files'', ''ci_cd_config'', ''k8s_manifests'']"

definition stage_5_deployment ::
  "env \<Rightarrow> project_context \<Rightarrow> (error + project_context) \<times> event list"
where
  "stage_5_deployment env ctx =
     (case agent_call env ''devops'' 0 of
        (result, evs) \<Rightarrow>
          (case create_deployment_files_safe (env_fs env 5) 0 file_mappings result of
             Inl e \<Rightarrow> (Inl e, StageStart 5 ctx # evs)
           | Inr u \<Rightarrow>
               (Inr (ctx\<lparr>current_stage := JString ''deployment'', deployment := result\<rparr>),
                StageStart 5 ctx # evs)))"

text \<open>\<^verbatim>\<open>not user_input\<close> is false for a string that is not empty.\<close>

fun input_given :: "string option \<Rightarrow> bool" where
  "input_given None = False"
| "input_given (Some s) = (s \<noteq> [])"

definition unless_done ::
  "(project_context \<Rightarrow> json) \<Rightarrow> (project_context \<Rightarrow> (error + project_context) \<times> event list)
     \<Rightarrow> project_context \<Rightarrow> (error + project_context) \<times> event list"
where
  "unless_done field stage ctx = (if \<not> truthy (field ctx) then stage ctx else (Inr ctx, []))"

definition mark_completed :: "project_context \<Rightarrow> (error + project_context) \<times> event list" where
  "mark_completed ctx = (Inr (ctx\<lparr>current_stage := JString ''completed''\<rparr>), [])"

definition resume_workflow ::
  "env \<Rightarrow> string option \<Rightarrow> project_context \<Rightarrow> (error + project_context) \<times> event list"
where
  "resume_workflow env user_input ctx =
     and_then
       (if \<not> truthy (requirements ctx) then
          (if \<not> input_given user_input then (Inl ValueError, [])
           else stage_1_requirements env user_input ctx)
        else (Inr ctx, []))
       (\<lambda>ctx. and_then (unless_done architecture (stage_2_architecture env) ctx)
       (\<lambda>ctx. and_then (unless_done codebase (stage_3_code_generation env) ctx)
       (\<lambda>ctx. and_then (unless_done test_results (stage_4_review_and_test env) ctx)
       (\<lambda>ctx. and_then (unless_done deployment (stage_5_deployment env) ctx)
         mark_completed))))"

text \<open>
  \<^verbatim>\<open>run_full_workflow\<close>: its handler saves the context and raises the exception again.
\<close>

definition run_full_workflow ::
  "env \<Rightarrow> string option \<Rightarrow> project_context \<Rightarrow> (error + project_context) \<times> event list"
where
  "run_full_workflow env user_input ctx =
     (if current_stage ctx \<noteq> JString ''not_started'' then resume_workflow env user_input ctx
      else
        and_then (stage_1_requirements env user_input ctx)
        (\<lambda>ctx. and_then (stage_2_architecture env ctx)
        (\<lambda>ctx. and_then (stage_3_code_generation env ctx)
        (\<lambda>ctx. and_then (stage_4_review_and_test env ctx)
        (\<lambda>ctx. and_then (stage_5_deployment env ctx)
          mark_completed)))))"

text \<open>
  Saving and loading. \<^verbatim>\<open>save_context\<close> writes \<^verbatim>\<open>asdict(self.context)\<close> as JSON; the
  model returns the content of the file. \<^verbatim>\<open>load_existing_context\<close> reads the file, if
  there is one: \<open>None\<close> stands for a file that is missing or is not JSON. A file that
  does not hold a dictionary makes the first \<^verbatim>\<open>data.get\<close> raise, which the function
  catches, so nothing is restored.
\<close>

definition asdict :: "project_context \<Rightarrow> json" where
  "asdict ctx =
     JObject
       [(''project_name'', JString (project_name ctx)),
        (''requirements'', requirements ctx),
        (''architecture'', architecture ctx),
        (''codebase'', codebase ctx),
        (''test_results'', test_results ctx),
        (''deployment'', deployment ctx),
        (''created_at'', JString (created_at ctx)),
        (''current_stage'', current_stage ctx)]"

definition save_context :: "project_context \<Rightarrow> json" where
  "save_context ctx = asdict ctx"

definition dict_get :: "(string \<times> json) list \<Rightarrow> string \<Rightarrow> json \<Rightarrow> json" where
  "dict_get kvs key dflt = (case map_of kvs key of None \<Rightarrow> dflt | Some v \<Rightarrow> v)"

definition load_existing_context :: "json option \<Rightarrow> project_context \<Rightarrow> project_context" where
  "load_existing_context file ctx =
     (case file of
        None \<Rightarrow> ctx
      | Some (JObject data) \<Rightarrow>
          ctx\<lparr>requirements := dict_get data ''requirements'' JNull,
              architecture := dict_get data ''architecture'' JNull,
              codebase := dict_get data ''codebase'' JNull,
              test_results := dict_get data ''test_results'' JNull,
              deployment := dict_get data ''deployment'' JNull,
              current_stage := dict_get data ''current_stage'' (JString ''not_started'')\<rparr>
      | Some _ \<Rightarrow> ctx)"

text \<open>
  The constructor of \<^verbatim>\<open>ProjectWorkflowManager\<close>: a new context, created at time \<open>now\<close>,
  into which the file is loaded.
\<close>

definition ProjectWorkflowManager :: "string \<Rightarrow> string \<Rightarrow> json option \<Rightarrow> project_context" where
  "ProjectWorkflowManager name now file =
     load_existing_context file (ProjectContext name None now)"

text \<open>The result field that stage \<open>n\<close> fills.\<close>

definition stage_field :: "nat \<Rightarrow> project_context \<Rightarrow> json" where
  "stage_field n ctx =
     (if n = 1 then requirements ctx
      else if n = 2 then architecture ctx
      else if n = 3 then codebase ctx
      else if n = 4 then test_results ctx
      else if n = 5 then deployment ctx
      else JNull)"

text \<open>
  Three settings for concrete runs: a producer that answers every call with the record
  \<^verbatim>\<open>{"ok": true}\<close>, a producer that fails on every call, and a new context. In both
  environments the operating system performs every call.
\<close>

definition example_env :: env where
  \<open>example_env =
     \<lparr> env_loads = json_loads, env_models = role_names,
       env_producer = (\<lambda>role task attempt. Responds ''{"ok": true}''),
       env_set_order = remdups, env_fs = (\<lambda>stage i j op. True) \<rparr>\<close>

definition failing_env :: env where
  "failing_env =
     \<lparr> env_loads = json_loads, env_models = role_names,
       env_producer = (\<lambda>role task attempt. Fails),
       env_set_order = remdups, env_fs = (\<lambda>stage i j op. True) \<rparr>"

definition example_context :: project_context where
  "example_context = ProjectContext ''shop'' None ''2025-01-01T00:00:00''"

text \<open>The context the first of these producers leaves when the run starts from the new context.\<close>

definition example_done :: project_context where
  "example_done =
     \<lparr> project_name = ''shop'',
       requirements = JObject [(''ok'', JBool True)],
       architecture = JObject [(''ok'', JBool True)],
       codebase =
         codebase_json
           [(''backend'', JObject [(''ok'', JBool True)]),
            (''frontend'', JObject [(''ok'', JBool True)]),
            (''database'', JObject [(''ok'', JBool True)])]
           [] ''completed'',
       test_results = JObject [(''ok'', JBool True)],
       deployment = JObject [(''ok'', JBool True)],
       created_at = ''2025-01-01T00:00:00'',
       current_stage = JString ''completed'' \<rparr>"

text \<open>A producer that answers every call with the JSON array \<^verbatim>\<open>[1]\<close>.\<close>

definition list_answer_env :: env where
  \<open>list_answer_env =
     \<lparr> env_loads = json_loads, env_models = role_names,
       env_producer = (\<lambda>role task attempt. Responds ''[1]''),
       env_set_order = remdups, env_fs = (\<lambda>stage i j op. True) \<rparr>\<close>

text \<open>Every remote call of the run fails: the producer errors or its output cannot be parsed.\<close>

definition all_calls_fail :: "env \<Rightarrow> bool" where
  "all_calls_fail env \<longleftrightarrow>
     (\<forall>role task attempt. attempt_failed (env_loads env) (env_producer env role task attempt))"

text \<open>The operating system performs every file-system call of the run.\<close>

definition fs_performs_all :: "env \<Rightarrow> bool" where
  "fs_performs_all env \<longleftrightarrow> (\<forall>stage i j op. env_fs env stage i j op)"

text \<open>
  A producer that answers every call with the record
  \<^verbatim>\<open>{"docker_files": {"a\u0000b": "x"}}\<close>: one deployment file, whose name has the
  character 0 in it. The operating system performs every call.
\<close>

definition null_name_env :: env where
  \<open>null_name_env =
     \<lparr> env_loads = json_loads, env_models = role_names,
       env_producer =
         (\<lambda>role task attempt.
            Responds (''{"docker_files": {"a'' @ [CHR 0x5C] @ ''u0000b": "x"}}'')),
       env_set_order = remdups, env_fs = (\<lambda>stage i j op. True) \<rparr>\<close>

text \<open>
  Monotonic progression of a trace: for \<open>n\<close> from 1 to 4, whenever stage \<open>n + 1\<close> is
  entered, the context it is entered with has the result of stage \<open>n\<close>.
\<close>

definition monotonic_progression :: "event list \<Rightarrow> bool" where
  "monotonic_progression evs \<longleftrightarrow>
     (\<forall>n ctx. 1 \<le> n \<and> n \<le> 4 \<and> StageStart (Suc n) ctx \<in> set evs
        \<longrightarrow> stage_field n ctx \<noteq> JNull)"

text \<open>
  What every step of a run does, stage \<open>k\<close> on the context \<open>ctx\<close>: it enters no stage
  but its own, and that with the context it was given; it does not raise the
  input-missing error; and when it returns, its own field is filled and the other result
  fields are as they were.
\<close>

definition step_spec ::
  "nat \<Rightarrow> project_context \<Rightarrow> (error + project_context) \<times> event list \<Rightarrow> bool" where
  "step_spec k ctx m \<longleftrightarrow>
     set (starts (snd m)) \<subseteq> {(k, ctx)} \<and>
     fst m \<noteq> Inl ValueError \<and>
     (\<forall>ctx'. fst m = Inr ctx' \<longrightarrow>
        truthy (stage_field k ctx') \<and>
        (\<forall>j. j \<noteq> k \<longrightarrow> stage_field j ctx' = stage_field j ctx))"

text \<open>
  The stages of a trace are entered in order from stage \<open>k\<close> on: none before \<open>k\<close>, and
  each one after the first with the result of the stage before it.
\<close>

definition entered_in_order :: "nat \<Rightarrow> event list \<Rightarrow> bool" where
  "entered_in_order k evs \<longleftrightarrow>
     (\<forall>(n, c) \<in> set (starts evs). k \<le> n \<and> (2 \<le> n \<longrightarrow> truthy (stage_field (n - 1) c)))"

section \<open>Properties of the response parser\<close>

lemma first_success_truthy: "first_success strategies text = Some r \<Longrightarrow> truthy r"
  by (induction strategies) (auto split: sum.splits if_splits)

lemma parse_json_response_truthy: "parse_json_response loads text = Some r \<Longrightarrow> truthy r"
  unfolding parse_json_response_def by (rule first_success_truthy)

text \<open>
  C10. The text \<^verbatim>\<open>{}\<close> is well-formed and denotes the empty record, yet
  \<^verbatim>\<open>parse_json_response\<close> returns \<^verbatim>\<open>None\<close> for it: three of the four strategies decode
  the empty record, which is not a true value, and the fenced-block strategy finds no
  fence, so none of them is accepted.
\<close>

theorem parse_json_response_empty_record:
  \<open>json_loads ''{}'' = Some (JObject []) \<and>
   parse_clean_json json_loads ''{}'' = Inr (JObject []) \<and>
   parse_markdown_json json_loads ''{}'' = Inl ValueError \<and>
   parse_partial_json json_loads ''{}'' = Inr (JObject []) \<and>
   parse_line_by_line_json json_loads ''{}'' = Inr (JObject []) \<and>
   parse_json_response json_loads ''{}'' = None\<close>
  by code_simp

text \<open>
  C7. On the text \<^verbatim>\<open>{"a":1,}\<close> the repair pass does strip the trailing comma, but its
  second substitution then puts a backslash before the opening quote of the key, and the
  decoder rejects the result: the line-accumulation strategy raises, and so the whole
  parser returns \<^verbatim>\<open>None\<close>, although the text without the comma decodes to the record
  with \<open>a = 1\<close>.
\<close>

theorem line_by_line_trailing_comma_fails:
  \<open>remove_trailing_commas ''{"a":1,}'' = ''{"a":1}'' \<and>
   json_loads ''{"a":1}'' = Some (JObject [(''a'', JInt 1)]) \<and>
   fix_common_json_issues ''{"a":1,}'' = ''{'' @ [CHR 0x5C] @ ''"a":1}'' \<and>
   parse_line_by_line_json json_loads ''{"a":1,}'' = Inl JSONDecodeError \<and>
   parse_json_response json_loads ''{"a":1,}'' = None\<close>
  by code_simp

text \<open>
  C8, as stated, fails. The text \<^verbatim>\<open>{"a":"}"}\<close> is a JSON record whose string value
  holds a closing brace. Wrapped in a fenced block it is recovered by the fenced-block
  strategy; brace matching on the bare text stops at the brace inside the string and
  hands the decoder a truncated text.
\<close>

theorem brace_matching_differs_from_fenced:
  \<open>json_loads ''{"a":"}"}'' = Some (JObject [(''a'', JString ''}'')]) \<and>
   parse_markdown_json json_loads ''```json\<newline>{"a":"}"}\<newline>```''
     = Inr (JObject [(''a'', JString ''}'')]) \<and>
   brace_extract ''{"a":"}"}'' = Inr ''{"a":"}'' \<and>
   parse_partial_json json_loads ''{"a":"}"}'' = Inl JSONDecodeError\<close>
  by code_simp

lemma startswith_simps [simp]:
  "startswith s [] = True"
  "startswith [] (p # ps) = False"
  "startswith (c # cs) (p # ps) \<longleftrightarrow> c = p \<and> startswith cs ps"
  by (auto simp: startswith_def)

lemma startswith_append: "startswith x (p @ q) \<Longrightarrow> startswith x p"
proof -
  assume "startswith x (p @ q)"
  then have "take (length p + length q) x = p @ q"
    by (simp add: startswith_def)
  then have "take (length p) (take (length p + length q) x) = take (length p) (p @ q)"
    by simp
  then show ?thesis
    by (simp add: startswith_def)
qed

lemma json_fence_is_fence: "startswith x ''```json'' \<Longrightarrow> startswith x ''```''"
  using startswith_append [of x "''```''" "''json''"] by simp

lemma find_None_iff: "py_find s sub = None \<longleftrightarrow> \<not> py_in sub s"
  by (induction s) auto

lemma fence_not_across_newline:
  "startswith (d @ CHR ''\<newline>'' # t) ''```'' \<Longrightarrow> startswith d ''```''"
proof (cases d)
  case Nil
  then show "startswith (d @ CHR ''\<newline>'' # t) ''```'' \<Longrightarrow> ?thesis" by simp
next
  case d1: (Cons a d1)
  show "startswith (d @ CHR ''\<newline>'' # t) ''```'' \<Longrightarrow> ?thesis"
  proof (cases d1)
    case Nil
    with d1 show "startswith (d @ CHR ''\<newline>'' # t) ''```'' \<Longrightarrow> ?thesis" by simp
  next
    case d2: (Cons b d2)
    show "startswith (d @ CHR ''\<newline>'' # t) ''```'' \<Longrightarrow> ?thesis"
    proof (cases d2)
      case Nil
      with d1 d2 show "startswith (d @ CHR ''\<newline>'' # t) ''```'' \<Longrightarrow> ?thesis" by simp
    next
      case (Cons c d3)
      with d1 d2 show "startswith (d @ CHR ''\<newline>'' # t) ''```'' \<Longrightarrow> ?thesis" by simp
    qed
  qed
qed

lemma no_fence_before_newline:
  assumes "\<not> py_in ''```'' body"
    and "\<not> py_in sub (CHR ''\<newline>'' # t)"
    and "\<And>x. startswith x sub \<Longrightarrow> startswith x ''```''"
  shows "\<not> py_in sub (body @ CHR ''\<newline>'' # t)"
  using assms(1)
proof (induction body)
  case Nil
  from assms(2) show ?case by simp
next
  case (Cons c cs)
  then have "\<not> startswith (c # cs) ''```''" and "\<not> py_in ''```'' cs"
    by simp_all
  moreover have "startswith ((c # cs) @ CHR ''\<newline>'' # t) sub \<Longrightarrow> startswith (c # cs) ''```''"
    using assms(3) fence_not_across_newline by blast
  ultimately show ?case
    using Cons.IH by auto
qed

lemma closing_fence_position:
  assumes "\<not> py_in ''```'' body"
  shows "py_find (body @ ''\<newline>```'') ''```'' = Some (Suc (length body))"
  using assms
proof (induction body)
  case Nil
  show ?case by simp
next
  case (Cons c cs)
  then have "\<not> startswith (c # cs) ''```''" and "\<not> py_in ''```'' cs"
    by simp_all
  moreover have "startswith ((c # cs) @ ''\<newline>```'') ''```'' \<Longrightarrow> startswith (c # cs) ''```''"
    using fence_not_across_newline [of "c # cs" "''```''"] by simp
  ultimately have "py_find ((c # cs) @ ''\<newline>```'') ''```''
      = map_option Suc (py_find (cs @ ''\<newline>```'') ''```'')"
    by auto
  with Cons.IH \<open>\<not> py_in ''```'' cs\<close> show ?case by simp
qed


lemma split_found:
  "sep \<noteq> [] \<Longrightarrow> py_find s sep = Some i \<Longrightarrow>
   split s sep = take i s # split (drop (i + length sep) s) sep"
  by (subst split.simps) simp

lemma split_not_found: "py_find s sep = None \<Longrightarrow> split s sep = [s]"
  by (subst split.simps) simp

lemma strip_leading: "is_space c \<Longrightarrow> strip (c # s) = strip s"
  by (simp add: strip_def)

lemma strip_trailing: "is_space c \<Longrightarrow> strip (s @ [c]) = strip s"
proof (cases "\<forall>x \<in> set s. is_space x")
  case True
  assume "is_space c"
  with True have a: "dropWhile is_space (s @ [c]) = []" and b: "dropWhile is_space s = []"
    by simp_all
  show ?thesis
    unfolding strip_def a b by simp
next
  case False
  assume "is_space c"
  from False have a: "dropWhile is_space (s @ [c]) = dropWhile is_space s @ [c]"
    by (simp add: dropWhile_append)
  from \<open>is_space c\<close> show ?thesis
    unfolding strip_def a by simp
qed

lemma is_space_newline: "is_space CHR ''\<newline>''"
  by (simp add: is_space_def)

lemma strip_between_newlines: "strip (CHR ''\<newline>'' # body @ ''\<newline>'') = strip body"
  by (simp add: strip_leading strip_trailing is_space_newline)

text \<open>The text between the fences, for either opening fence.\<close>

lemma fenced_content_json:
  assumes "\<not> py_in ''```'' body"
  shows "fenced_content (fenced ''json'' body) ''```json'' = Inr (strip body)"
proof -
  have whole: "fenced ''json'' body = ''```json'' @ CHR ''\<newline>'' # body @ ''\<newline>```''"
    by (simp add: fenced_def)
  have "\<not> py_in ''```json'' (body @ CHR ''\<newline>'' # ''```'')"
    using assms by (rule no_fence_before_newline) (simp_all add: json_fence_is_fence)
  then have "py_find (CHR ''\<newline>'' # body @ ''\<newline>```'') ''```json'' = None"
    by (simp add: find_None_iff)
  then have after: "split (CHR ''\<newline>'' # body @ ''\<newline>```'') ''```json''
      = [CHR ''\<newline>'' # body @ ''\<newline>```'']"
    by (rule split_not_found)
  have first: "split (fenced ''json'' body) ''```json''
      = [] # split (CHR ''\<newline>'' # body @ ''\<newline>```'') ''```json''"
    unfolding whole by (subst split_found [where i = 0]) simp_all
  have "py_find (CHR ''\<newline>'' # body @ ''\<newline>```'') ''```'' = Some (Suc (Suc (length body)))"
    using closing_fence_position [OF assms] by simp
  then have inner: "split (CHR ''\<newline>'' # body @ ''\<newline>```'') ''```''
      = (CHR ''\<newline>'' # body @ ''\<newline>'') # split [] ''```''"
    by (subst split_found [where i = "Suc (Suc (length body))"]) simp_all
  show ?thesis
    by (simp add: fenced_content_def first after inner index_def strip_between_newlines)
qed

lemma fenced_content_plain:
  assumes "\<not> py_in ''```'' body"
  shows "fenced_content (fenced [] body) ''```'' = Inr (strip body)"
proof -
  have whole: "fenced [] body = ''```'' @ CHR ''\<newline>'' # body @ ''\<newline>```''"
    by (simp add: fenced_def)
  have "py_find (CHR ''\<newline>'' # body @ ''\<newline>```'') ''```'' = Some (Suc (Suc (length body)))"
    using closing_fence_position [OF assms] by simp
  then have after: "split (CHR ''\<newline>'' # body @ ''\<newline>```'') ''```''
      = (CHR ''\<newline>'' # body @ ''\<newline>'') # split [] ''```''"
    by (subst split_found [where i = "Suc (Suc (length body))"]) simp_all
  have first: "split (fenced [] body) ''```''
      = [] # split (CHR ''\<newline>'' # body @ ''\<newline>```'') ''```''"
    unfolding whole by (subst split_found [where i = 0]) simp_all
  have "\<not> py_in ''```'' (body @ CHR ''\<newline>'' # [])"
    using assms by (rule no_fence_before_newline) simp_all
  then have "py_find (CHR ''\<newline>'' # body @ ''\<newline>'') ''```'' = None"
    by (simp add: find_None_iff)
  then have inner: "split (CHR ''\<newline>'' # body @ ''\<newline>'') ''```''
      = [CHR ''\<newline>'' # body @ ''\<newline>'']"
    by (rule split_not_found)
  show ?thesis
    by (simp add: fenced_content_def first after inner index_def strip_between_newlines)
qed

lemma fenced_plain_has_no_json_fence:
  assumes "\<not> py_in ''```'' body"
  shows "\<not> py_in ''```json'' (fenced [] body)"
proof -
  have "\<not> py_in ''```json'' (body @ CHR ''\<newline>'' # ''```'')"
    using assms by (rule no_fence_before_newline) (simp_all add: json_fence_is_fence)
  then show ?thesis
    by (simp add: fenced_def)
qed

text \<open>
  C8, amended. Let the interior hold no triple backtick, and let brace matching extract
  all of it, that is, its trimmed form (it starts with an opening brace and the count of
  braces first returns to zero at its last character). Then, for every decoder,
  fenced-block parsing of the interior wrapped in a fenced block, tagged \<^verbatim>\<open>json\<close> or not,
  returns what brace-matched parsing of the interior returns.
\<close>

theorem fenced_agrees_with_brace_matched:
  assumes "\<not> py_in ''```'' body" and "brace_extract body = Inr (strip body)"
  shows "parse_markdown_json loads (fenced ''json'' body) = parse_partial_json loads body \<and>
         parse_markdown_json loads (fenced [] body) = parse_partial_json loads body"
proof -
  have partial: "parse_partial_json loads body = decode loads (strip body)"
    using assms(2) by (simp add: parse_partial_json_def)
  have "py_in ''```json'' (fenced ''json'' body)"
    by (simp add: fenced_def)
  then have tagged: "parse_markdown_json loads (fenced ''json'' body) = decode loads (strip body)"
    using fenced_content_json [OF assms(1)] by (simp add: parse_markdown_json_def)
  have "py_in ''```'' (fenced [] body)"
    by (simp add: fenced_def)
  then have plain: "parse_markdown_json loads (fenced [] body) = decode loads (strip body)"
    using fenced_content_plain [OF assms(1)] fenced_plain_has_no_json_fence [OF assms(1)]
    by (simp add: parse_markdown_json_def)
  from partial tagged plain show ?thesis
    by simp
qed

theorem fenced_agrees_with_brace_matched_witness:
  \<open>\<not> py_in ''```'' ''{"a":{"b":[1,2]}}'' \<and>
   brace_extract ''{"a":{"b":[1,2]}}'' = Inr (strip ''{"a":{"b":[1,2]}}'') \<and>
   parse_partial_json json_loads ''{"a":{"b":[1,2]}}''
     = Inr (JObject [(''a'', JObject [(''b'', JArray [JInt 1, JInt 2])])]) \<and>
   parse_markdown_json json_loads (fenced ''json'' ''{"a":{"b":[1,2]}}'')
     = Inr (JObject [(''a'', JObject [(''b'', JArray [JInt 1, JInt 2])])]) \<and>
   parse_markdown_json json_loads (fenced [] ''{"a":{"b":[1,2]}}'')
     = Inr (JObject [(''a'', JObject [(''b'', JArray [JInt 1, JInt 2])])])\<close>
proof -
  have no_fence: \<open>\<not> py_in ''```'' ''{"a":{"b":[1,2]}}''\<close>
    by code_simp
  have whole: \<open>brace_extract ''{"a":{"b":[1,2]}}'' = Inr (strip ''{"a":{"b":[1,2]}}'')\<close>
    by code_simp
  have bare: \<open>parse_partial_json json_loads ''{"a":{"b":[1,2]}}''
     = Inr (JObject [(''a'', JObject [(''b'', JArray [JInt 1, JInt 2])])])\<close>
    by code_simp
  from fenced_agrees_with_brace_matched [OF no_fence whole, of json_loads] no_fence whole bare
  show ?thesis
    by simp
qed

section \<open>Properties of the remote agent client\<close>

lemma attempt_once_calls:
  "remote_calls (snd (attempt_once loads models out model_name)) \<le> 1"
  by (simp add: attempt_once_def remote_calls_def split: outcome.splits option.splits)

lemma remote_calls_append [simp]:
  "remote_calls (evs @ evs') = remote_calls evs + remote_calls evs'"
  by (simp add: remote_calls_def)

lemma remote_calls_Sleep [simp]: "remote_calls (Sleep n # evs) = remote_calls evs"
  by (simp add: remote_calls_def)

lemma call_api_loop_calls:
  "remote_calls (snd (call_api_loop loads models producer model_name attempts))
     \<le> length attempts"
proof (induction attempts)
  case Nil
  then show ?case by (simp add: remote_calls_def)
next
  case (Cons attempt rest)
  obtain res evs where a: "attempt_once loads models (producer attempt) model_name = (res, evs)"
    by (cases "attempt_once loads models (producer attempt) model_name")
  with attempt_once_calls [of loads models "producer attempt" model_name]
  have evs: "remote_calls evs \<le> 1" by simp
  obtain r evs' where l: "call_api_loop loads models producer model_name rest = (r, evs')"
    by (cases "call_api_loop loads models producer model_name rest")
  with Cons.IH have "remote_calls evs' \<le> length rest" by simp
  with evs a l show ?case
    by (cases res) auto
qed

lemma attempt_once_failed:
  "attempt_failed loads out \<Longrightarrow> fst (attempt_once loads models out model_name) \<noteq> Parsed r"
  by (auto simp: attempt_failed_def attempt_once_def split: outcome.splits)

lemma call_api_loop_all_failed:
  "(\<And>attempt. attempt \<in> set attempts \<Longrightarrow> attempt_failed loads (producer attempt)) \<Longrightarrow>
   fst (call_api_loop loads models producer model_name attempts)
     = get_default_structure model_name"
proof (induction attempts)
  case Nil
  then show ?case by simp
next
  case (Cons attempt rest)
  obtain res evs where a: "attempt_once loads models (producer attempt) model_name = (res, evs)"
    by (cases "attempt_once loads models (producer attempt) model_name")
  have "attempt_failed loads (producer attempt)"
    using Cons.prems by simp
  with attempt_once_failed [of loads "producer attempt" models model_name] a
  have res: "\<And>r. res \<noteq> Parsed r" by auto
  have "fst (call_api_loop loads models producer model_name rest)
          = get_default_structure model_name"
    using Cons by simp
  with a res show ?case
    by (cases res) (auto split: prod.splits)
qed

text \<open>
  C1. Whatever the producer does, one invocation of \<^verbatim>\<open>call_api\<close> calls it at most three
  times; and when each of the three attempts fails (the producer errors, or nothing can
  be parsed from its output), the invocation returns the default record of the role. The
  model has no exceptional result for \<^verbatim>\<open>call_api\<close>: every statement of the source that can
  raise stands inside its \<^verbatim>\<open>try\<close> block.
\<close>

theorem call_api_retry_bound:
  "remote_calls (snd (call_api loads models producer model_name)) \<le> 3 \<and>
   ((\<forall>attempt < 3. attempt_failed loads (producer attempt)) \<longrightarrow>
      fst (call_api loads models producer model_name) = get_default_structure model_name)"
proof
  show "remote_calls (snd (call_api loads models producer model_name)) \<le> 3"
    using call_api_loop_calls [of loads models producer model_name "[0..<max_retries]"]
    by (simp add: call_api_def max_retries_def)
next
  show "(\<forall>attempt < 3. attempt_failed loads (producer attempt)) \<longrightarrow>
      fst (call_api loads models producer model_name) = get_default_structure model_name"
  proof
    assume "\<forall>attempt < 3. attempt_failed loads (producer attempt)"
    then have "\<And>attempt. attempt \<in> set [0..<max_retries] \<Longrightarrow>
        attempt_failed loads (producer attempt)"
      by (simp add: max_retries_def)
    then show "fst (call_api loads models producer model_name)
        = get_default_structure model_name"
      unfolding call_api_def by (rule call_api_loop_all_failed)
  qed
qed

theorem call_api_retry_bound_witness:
  \<open>attempt_failed json_loads ((\<lambda>a::nat. if a = 1 then Responds ''{}'' else Fails) 0) \<and>
   attempt_failed json_loads ((\<lambda>a::nat. if a = 1 then Responds ''{}'' else Fails) 1) \<and>
   attempt_failed json_loads ((\<lambda>a::nat. if a = 1 then Responds ''{}'' else Fails) 2) \<and>
   remote_calls (snd (call_api json_loads role_names
                        (\<lambda>a. if a = 1 then Responds ''{}'' else Fails) ''devops'')) \<le> 3 \<and>
   fst (call_api json_loads role_names (\<lambda>a. if a = 1 then Responds ''{}'' else Fails) ''devops'')
     = default_devops\<close>
proof -
  have empty: \<open>parse_json_response json_loads (strip ''{}'') = None\<close>
    by code_simp
  have failed: \<open>\<forall>attempt < 3.
      attempt_failed json_loads ((\<lambda>a::nat. if a = 1 then Responds ''{}'' else Fails) attempt)\<close>
    by (simp add: attempt_failed_def empty)
  have default: \<open>get_default_structure ''devops'' = default_devops\<close>
    by (simp add: get_default_structure_def default_structures_def)
  from failed default
    call_api_retry_bound [of json_loads role_names
      \<open>\<lambda>a. if a = 1 then Responds ''{}'' else Fails\<close> \<open>''devops''\<close>]
  show ?thesis
    by (simp add: attempt_failed_def empty)
qed

text \<open>
  C6, as stated, fails. A producer that answers every call with text from which nothing
  can be parsed makes all three attempts fail, with attempts remaining after the first
  and the second; the trace holds the three calls and no sleep between them.
\<close>

theorem no_backoff_after_parse_failure:
  \<open>parse_json_response json_loads (strip ''not json'') = None \<and>
   call_api json_loads role_names (\<lambda>attempt. Responds ''not json'') ''planner''
     = (default_planner, [RemoteCall ''planner'', RemoteCall ''planner'', RemoteCall ''planner''])\<close>
  by code_simp

lemma range_max_retries: "[0..<max_retries] = [0, 1, 2]"
  by (simp add: max_retries_def upt_rec)

text \<open>
  C6, amended. For a role that has a model, the sleeps of one invocation are: 1 second
  after the first attempt if the remote call of that attempt raised; 2 seconds after the
  second attempt if that attempt was reached (the first one failed) and its remote call
  raised; nothing else. So an attempt whose output could not be parsed is followed by the
  next attempt without a wait, and there is no wait after the third attempt.
\<close>

theorem call_api_backoff:
  assumes "model_name \<in> set role_names" and "model_name \<in> set models"
  shows "sleeps (snd (call_api loads models producer model_name))
           = (if producer 0 = Fails then [1] else [])
             @ (if attempt_failed loads (producer 0) \<and> producer 1 = Fails then [2] else [])"
proof -
  have once: "attempt_once loads models out model_name =
      (case out of
         Fails \<Rightarrow> (Raised, [RemoteCall model_name])
       | Responds text \<Rightarrow>
           (case parse_json_response loads (strip text) of
              None \<Rightarrow> (NoResult, [RemoteCall model_name])
            | Some result \<Rightarrow> (Parsed result, [RemoteCall model_name])))" for out
    using assms
    by (auto simp: attempt_once_def split: outcome.splits option.splits
             dest: parse_json_response_truthy)
  show ?thesis
    unfolding call_api_def range_max_retries
    by (cases "producer 0"; cases "producer 1"; cases "producer 2")
       (auto simp: once attempt_failed_def max_retries_def split: option.splits)
qed

theorem call_api_backoff_witness:
  \<open>''planner'' \<in> set role_names \<and>
   attempt_failed json_loads (Responds ''not json'') \<and>
   sleeps (snd (call_api json_loads role_names
                  (\<lambda>attempt. if attempt = 1 then Fails else Responds ''not json'') ''planner''))
     = [2]\<close>
proof -
  have np: \<open>parse_json_response json_loads (strip ''not json'') = None\<close>
    by code_simp
  have r: \<open>''planner'' \<in> set role_names\<close>
    by (simp add: role_names_def)
  from call_api_backoff [OF r r, of json_loads
      \<open>\<lambda>attempt. if attempt = 1 then Fails else Responds ''not json''\<close>] r np
  show ?thesis
    by (simp add: attempt_failed_def)
qed

section \<open>Properties of loading and saving\<close>

lemma load_existing_context_created_at:
  "created_at (load_existing_context file ctx) = created_at ctx"
  by (simp add: load_existing_context_def split: option.splits json.splits)

lemma load_saved_context:
  "load_existing_context (Some (save_context old)) ctx =
     ctx\<lparr>requirements := requirements old, architecture := architecture old,
         codebase := codebase old, test_results := test_results old,
         deployment := deployment old, current_stage := current_stage old\<rparr>"
  by (simp add: load_existing_context_def save_context_def asdict_def dict_get_def)

text \<open>
  C9. A context created on 1 January 2024 was saved. A manager constructed on 1 June 2025
  loads that file and saves again: the \<^verbatim>\<open>created_at\<close> in the file is now the time of
  the second construction, not the one that was persisted. \<^verbatim>\<open>load_existing_context\<close>
  restores the five results and the stage and leaves out \<^verbatim>\<open>created_at\<close>.
\<close>

theorem load_save_loses_created_at:
  \<open>py_get (save_context (ProjectContext ''shop'' None ''2024-01-01T09:00:00''))
     ''created_at'' JNull
     = Inr (JString ''2024-01-01T09:00:00'') \<and>
   py_get
     (save_context
        (ProjectWorkflowManager ''shop'' ''2025-06-01T12:00:00''
           (Some (save_context (ProjectContext ''shop'' None ''2024-01-01T09:00:00'')))))
     ''created_at'' JNull
     = Inr (JString ''2025-06-01T12:00:00'')\<close>
  by (simp add: save_context_def asdict_def ProjectWorkflowManager_def
        load_existing_context_def ProjectContext_def)

section \<open>Properties of the stage engine\<close>

lemma starts_append [simp]: "starts (evs @ evs') = starts evs @ starts evs'"
  by (induction evs rule: starts.induct) auto

lemma starts_set: "StageStart n c \<in> set evs \<longleftrightarrow> (n, c) \<in> set (starts evs)"
  by (induction evs rule: starts.induct) auto

lemma get_default_structure_truthy: "truthy (get_default_structure model_name)"
  by (simp add: get_default_structure_def default_structures_def default_planner_def
        default_architect_def default_developer_def default_reviewer_def default_devops_def)

lemma attempt_once_events:
  "starts (snd (attempt_once loads models out model_name)) = []"
  by (simp add: attempt_once_def split: outcome.splits option.splits)

lemma attempt_once_Parsed:
  "attempt_once loads models out model_name = (Parsed r, evs) \<Longrightarrow> truthy r"
  by (auto simp: attempt_once_def split: outcome.splits option.splits if_splits)

lemma call_api_loop_truthy:
  "truthy (fst (call_api_loop loads models producer model_name attempts))"
proof (induction attempts)
  case Nil
  then show ?case by (simp add: get_default_structure_truthy)
next
  case (Cons attempt rest)
  obtain res evs where a: "attempt_once loads models (producer attempt) model_name = (res, evs)"
    by (cases "attempt_once loads models (producer attempt) model_name")
  show ?case
  proof (cases res)
    case (Parsed r)
    with a attempt_once_Parsed [of loads models "producer attempt" model_name r evs]
    show ?thesis by simp
  next
    case NoResult
    with a Cons.IH show ?thesis by (auto split: prod.splits)
  next
    case Raised
    with a Cons.IH show ?thesis
      by (auto simp: get_default_structure_truthy split: prod.splits)
  qed
qed

lemma call_api_loop_starts:
  "starts (snd (call_api_loop loads models producer model_name attempts)) = []"
proof (induction attempts)
  case Nil
  then show ?case by simp
next
  case (Cons attempt rest)
  obtain res evs where a: "attempt_once loads models (producer attempt) model_name = (res, evs)"
    by (cases "attempt_once loads models (producer attempt) model_name")
  with attempt_once_events [of loads models "producer attempt" model_name]
  have "starts evs = []" by simp
  with a Cons.IH show ?case
    by (cases res) (auto split: prod.splits)
qed

lemma agent_call_truthy: "truthy (fst (agent_call env role task))"
  by (simp add: agent_call_def call_api_def call_api_loop_truthy)

lemma agent_call_starts: "starts (snd (agent_call env role task)) = []"
  by (simp add: agent_call_def call_api_def call_api_loop_starts)

lemma and_then_starts:
  "starts (snd (and_then m f)) =
     starts (snd m) @ (case fst m of Inl e \<Rightarrow> [] | Inr x \<Rightarrow> starts (snd (f x)))"
  by (auto simp: and_then_def split: prod.splits sum.splits)

lemma and_then_Inr:
  "and_then m f = (Inr y, evs) \<longleftrightarrow>
     (\<exists>x evs1 evs2. m = (Inr x, evs1) \<and> f x = (Inr y, evs2) \<and> evs = evs1 @ evs2)"
  by (auto simp: and_then_def split: prod.splits sum.splits)

lemma and_then_Inl:
  "fst (and_then m f) = Inl e \<longleftrightarrow>
     (fst m = Inl e \<or> (\<exists>x. fst m = Inr x \<and> fst (f x) = Inl e))"
  by (auto simp: and_then_def split: prod.splits sum.splits)

lemma stage_field_simps [simp]:
  "stage_field 1 ctx = requirements ctx"
  "stage_field (Suc 0) ctx = requirements ctx"
  "stage_field 2 ctx = architecture ctx"
  "stage_field 3 ctx = codebase ctx"
  "stage_field 4 ctx = test_results ctx"
  "stage_field 5 ctx = deployment ctx"
  by (simp_all add: stage_field_def)

lemma stage_field_update [simp]:
  "stage_field j (ctx\<lparr>current_stage := s\<rparr>) = stage_field j ctx"
  "j \<noteq> 1 \<Longrightarrow> stage_field j (ctx\<lparr>requirements := v\<rparr>) = stage_field j ctx"
  "j \<noteq> 2 \<Longrightarrow> stage_field j (ctx\<lparr>architecture := v\<rparr>) = stage_field j ctx"
  "j \<noteq> 3 \<Longrightarrow> stage_field j (ctx\<lparr>codebase := v\<rparr>) = stage_field j ctx"
  "j \<noteq> 4 \<Longrightarrow> stage_field j (ctx\<lparr>test_results := v\<rparr>) = stage_field j ctx"
  "j \<noteq> 5 \<Longrightarrow> stage_field j (ctx\<lparr>deployment := v\<rparr>) = stage_field j ctx"
  by (simp_all add: stage_field_def)

lemma truthy_not_None: "truthy v \<Longrightarrow> v \<noteq> JNull"
  by auto

lemma stage_1_spec: "step_spec 1 ctx (stage_1_requirements env user_input ctx)"
  using agent_call_truthy [of env "''planner''" 0] agent_call_starts [of env "''planner''" 0]
  by (auto simp: step_spec_def stage_1_requirements_def split: prod.splits)

lemma stage_2_spec: "step_spec 2 ctx (stage_2_architecture env ctx)"
  using agent_call_truthy [of env "''architect''" 0] agent_call_starts [of env "''architect''" 0]
  by (auto simp: step_spec_def stage_2_architecture_def split: prod.splits)


lemma py_get_error: "py_get v key dflt = Inl e \<Longrightarrow> e = AttributeError"
  by (cases v) auto

lemma py_iter_error: "py_iter v = Inl e \<Longrightarrow> e = TypeError"
  by (cases v) auto

lemma py_contains_error: "py_contains key v = Inl e \<Longrightarrow> e = TypeError"
  by (cases v) auto

lemma py_getitem_error: "py_getitem v key = Inl e \<Longrightarrow> e = TypeError \<or> e = KeyError"
  by (cases v) (auto split: option.splits)

lemma py_items_error: "py_items v = Inl e \<Longrightarrow> e = AttributeError"
  by (cases v) auto

lemma write_file_error:
  "write_file os file_path file_content = Inl e \<Longrightarrow>
     e = TypeError \<or> e = OSError \<or> e = NullByteError"
  by (auto simp: write_file_def split: if_splits)

lemma write_files_error:
  "write_files os j files = Inl e \<Longrightarrow> e = TypeError \<or> e = OSError \<or> e = NullByteError"
proof (induction os j files rule: write_files.induct)
  case (1 os j)
  then show ?case by simp
next
  case (2 os j file_path file_content files)
  then show ?case
    by (auto split: sum.splits dest: write_file_error)
qed

lemma combine_loop_error:
  "combine_loop modules results acc = Inl e \<Longrightarrow> e \<noteq> ValueError"
proof (induction modules results acc rule: combine_loop.induct)
  case (1 results acc)
  then show ?case by simp
next
  case (2 module modules acc)
  then show ?case by auto
next
  case (3 module modules results acc)
  then show ?case by (auto split: if_splits)
next
  case (4 module modules result results acc)
  then show ?case
    by (auto split: if_splits sum.splits dest: py_get_error py_iter_error)
qed

lemma combine_results_error:
  "combine_results set_order modules results = Inl e \<Longrightarrow> e \<noteq> ValueError"
  by (auto simp: combine_results_def split: sum.splits if_splits dest: combine_loop_error)

lemma create_code_files_error:
  "create_code_files os i ms = Inl e \<Longrightarrow> e \<noteq> ValueError"
proof (induction os i ms rule: create_code_files.induct)
  case (1 os i)
  then show ?case by simp
next
  case (2 os i name data rest)
  then show ?case
    by (auto split: if_splits sum.splits bool.splits json.splits
             dest: py_contains_error py_getitem_error py_items_error write_files_error)
qed

lemma create_test_files_error: "create_test_files os v = Inl e \<Longrightarrow> e \<noteq> ValueError"
  by (auto simp: create_test_files_def split: sum.splits
           dest: py_items_error write_files_error)

lemma write_deployment_file_error:
  "write_deployment_file os file_name file_content = Inl e \<Longrightarrow>
     e = OSError \<or> e = NullByteError"
  by (auto simp: write_deployment_file_def Let_def split: if_splits sum.splits)

lemma write_deployment_files_error:
  "write_deployment_files os j files = Inl e \<Longrightarrow> e = OSError \<or> e = NullByteError"
proof (induction os j files rule: write_deployment_files.induct)
  case (1 os j)
  then show ?case by simp
next
  case (2 os j file_name file_content files)
  then show ?case
    by (auto split: sum.splits dest: write_deployment_file_error)
qed

lemma create_deployment_files_safe_error:
  "create_deployment_files_safe os k keys v = Inl e \<Longrightarrow> e \<noteq> ValueError"
proof (induction os k keys v rule: create_deployment_files_safe.induct)
  case (1 os k deployment_data)
  then show ?case by simp
next
  case (2 os k data_key data_keys deployment_data)
  then show ?case
    by (auto split: if_splits sum.splits bool.splits json.splits
             dest: py_contains_error py_getitem_error write_deployment_files_error)
qed

lemma gather_modules_starts: "starts (snd (gather_modules env i modules)) = []"
proof (induction modules arbitrary: i)
  case Nil
  then show ?case by simp
next
  case (Cons module modules)
  from Cons.IH [of "Suc i"] agent_call_starts [of env "''developer''" i]
  show ?case
    by (auto simp: generate_module_code_def split: prod.splits)
qed

lemma gather_modules_starts_pair:
  "gather_modules env i modules = (results, evs) \<Longrightarrow> starts evs = []"
  using gather_modules_starts [of env i modules] by simp

lemma stage_3_spec: "step_spec 3 ctx (stage_3_code_generation env ctx)"
  unfolding step_spec_def stage_3_code_generation_def finish_code_generation_def
  by (auto simp: codebase_json_def gather_modules_starts_pair
           split: sum.splits prod.splits option.splits
           dest: py_get_error py_iter_error combine_results_error create_code_files_error)

lemma stage_4_spec: "step_spec 4 ctx (stage_4_review_and_test env ctx)"
  using agent_call_truthy [of env "''reviewer''" 0] agent_call_starts [of env "''reviewer''" 0]
  unfolding step_spec_def stage_4_review_and_test_def
  by (auto split: prod.splits sum.splits bool.splits
           dest: py_contains_error py_getitem_error create_test_files_error)

lemma stage_5_spec: "step_spec 5 ctx (stage_5_deployment env ctx)"
  using agent_call_truthy [of env "''devops''" 0] agent_call_starts [of env "''devops''" 0]
  unfolding step_spec_def stage_5_deployment_def
  by (auto split: prod.splits sum.splits dest: create_deployment_files_safe_error)


lemma entered_in_order_chain:
  assumes m: "step_spec k ctx m"
    and pre: "2 \<le> k \<longrightarrow> truthy (stage_field (k - 1) ctx)"
    and next_stage: "k' = Suc k"
    and rest: "\<And>c. truthy (stage_field k c) \<Longrightarrow> entered_in_order k' (snd (rest c))"
  shows "entered_in_order k (snd (and_then m rest))"
proof -
  have own: "\<forall>(n, c) \<in> set (starts (snd m)). k \<le> n \<and> (2 \<le> n \<longrightarrow> truthy (stage_field (n - 1) c))"
    using m pre by (auto simp: step_spec_def)
  have later: "\<forall>(n, c) \<in> set (starts (snd (rest x))).
      k \<le> n \<and> (2 \<le> n \<longrightarrow> truthy (stage_field (n - 1) c))" if "fst m = Inr x" for x
  proof -
    from m that have "truthy (stage_field k x)"
      by (simp add: step_spec_def)
    then have "entered_in_order (Suc k) (snd (rest x))"
      using rest next_stage by simp
    then show ?thesis
      by (fastforce simp: entered_in_order_def)
  qed
  show ?thesis
    unfolding entered_in_order_def and_then_starts
    using own later by (cases "fst m") auto
qed

lemma unless_done_spec:
  assumes "\<And>c. step_spec k c (stage c)" and "\<And>c. field c = stage_field k c"
  shows "step_spec k ctx (unless_done field stage ctx)"
proof (cases "truthy (field ctx)")
  case True
  with assms(2) [of ctx] show ?thesis
    by (simp add: unless_done_def step_spec_def)
next
  case False
  with assms(1) [of ctx] show ?thesis
    by (simp add: unless_done_def)
qed

lemma mark_completed_order: "entered_in_order k (snd (mark_completed c))"
  by (simp add: mark_completed_def entered_in_order_def)

lemma entered_in_order_progression:
  "entered_in_order 1 evs \<Longrightarrow> monotonic_progression evs"
proof -
  assume a: "entered_in_order 1 evs"
  have "stage_field n ctx \<noteq> JNull" if "1 \<le> n" and "StageStart (Suc n) ctx \<in> set evs" for n ctx
  proof -
    from that(2) have "(Suc n, ctx) \<in> set (starts evs)"
      by (simp add: starts_set)
    with a that(1) have "truthy (stage_field (Suc n - 1) ctx)"
      unfolding entered_in_order_def by fastforce
    then show ?thesis by (simp add: truthy_not_None)
  qed
  then show ?thesis
    by (simp add: monotonic_progression_def)
qed

lemma tail_5:
  "truthy (stage_field 4 c) \<Longrightarrow>
   entered_in_order 5
     (snd (and_then (unless_done deployment (stage_5_deployment env) c) mark_completed))"
  by (rule entered_in_order_chain [where k = 5 and k' = 6])
     (simp_all add: unless_done_spec stage_5_spec mark_completed_order)

lemma tail_4:
  "truthy (stage_field 3 c) \<Longrightarrow>
   entered_in_order 4
     (snd (and_then (unless_done test_results (stage_4_review_and_test env) c)
       (\<lambda>ctx. and_then (unless_done deployment (stage_5_deployment env) ctx) mark_completed)))"
  by (rule entered_in_order_chain [where k = 4 and k' = 5])
     (simp_all add: unless_done_spec stage_4_spec tail_5)


lemma tail_3:
  "truthy (stage_field 2 c) \<Longrightarrow>
   entered_in_order 3
     (snd (and_then (unless_done codebase (stage_3_code_generation env) c)
       (\<lambda>ctx. and_then (unless_done test_results (stage_4_review_and_test env) ctx)
       (\<lambda>ctx. and_then (unless_done deployment (stage_5_deployment env) ctx) mark_completed))))"
  by (rule entered_in_order_chain [where k = 3 and k' = 4])
     (simp_all add: unless_done_spec stage_3_spec tail_4)

lemma tail_2:
  "truthy (stage_field 1 c) \<Longrightarrow>
   entered_in_order 2
     (snd (and_then (unless_done architecture (stage_2_architecture env) c)
       (\<lambda>ctx. and_then (unless_done codebase (stage_3_code_generation env) ctx)
       (\<lambda>ctx. and_then (unless_done test_results (stage_4_review_and_test env) ctx)
       (\<lambda>ctx. and_then (unless_done deployment (stage_5_deployment env) ctx) mark_completed)))))"
  by (rule entered_in_order_chain [where k = 2 and k' = 3])
     (simp_all add: unless_done_spec stage_2_spec tail_3)

lemma resume_workflow_order: "entered_in_order 1 (snd (resume_workflow env user_input ctx))"
proof (cases "\<not> truthy (requirements ctx) \<and> \<not> input_given user_input")
  case True
  then show ?thesis
    by (simp add: resume_workflow_def and_then_def entered_in_order_def)
next
  case False
  have "step_spec 1 ctx
      (if \<not> truthy (requirements ctx) then
         (if \<not> input_given user_input then (Inl ValueError, [])
          else stage_1_requirements env user_input ctx)
       else (Inr ctx, []))"
    using False stage_1_spec [of ctx env user_input]
    by (auto simp: step_spec_def)
  then show ?thesis
    unfolding resume_workflow_def
    by (rule entered_in_order_chain [where k = 1 and k' = 2]) (simp_all add: tail_2)
qed

lemma fresh_5:
  "truthy (stage_field 4 c) \<Longrightarrow>
   entered_in_order 5 (snd (and_then (stage_5_deployment env c) mark_completed))"
  by (rule entered_in_order_chain [where k = 5 and k' = 6])
     (simp_all add: stage_5_spec mark_completed_order)

lemma fresh_4:
  "truthy (stage_field 3 c) \<Longrightarrow>
   entered_in_order 4
     (snd (and_then (stage_4_review_and_test env c)
       (\<lambda>ctx. and_then (stage_5_deployment env ctx) mark_completed)))"
  by (rule entered_in_order_chain [where k = 4 and k' = 5])
     (simp_all add: stage_4_spec fresh_5)

lemma fresh_3:
  "truthy (stage_field 2 c) \<Longrightarrow>
   entered_in_order 3
     (snd (and_then (stage_3_code_generation env c)
       (\<lambda>ctx. and_then (stage_4_review_and_test env ctx)
       (\<lambda>ctx. and_then (stage_5_deployment env ctx) mark_completed))))"
  by (rule entered_in_order_chain [where k = 3 and k' = 4])
     (simp_all add: stage_3_spec fresh_4)

lemma fresh_2:
  "truthy (stage_field 1 c) \<Longrightarrow>
   entered_in_order 2
     (snd (and_then (stage_2_architecture env c)
       (\<lambda>ctx. and_then (stage_3_code_generation env ctx)
       (\<lambda>ctx. and_then (stage_4_review_and_test env ctx)
       (\<lambda>ctx. and_then (stage_5_deployment env ctx) mark_completed)))))"
  by (rule entered_in_order_chain [where k = 2 and k' = 3])
     (simp_all add: stage_2_spec fresh_3)

lemma run_full_workflow_order:
  "entered_in_order 1 (snd (run_full_workflow env user_input ctx))"
proof (cases "current_stage ctx \<noteq> JString ''not_started''")
  case True
  with resume_workflow_order [of env user_input ctx] show ?thesis
    by (simp add: run_full_workflow_def)
next
  case False
  have "entered_in_order 1
     (snd (and_then (stage_1_requirements env user_input ctx)
       (\<lambda>ctx. and_then (stage_2_architecture env ctx)
       (\<lambda>ctx. and_then (stage_3_code_generation env ctx)
       (\<lambda>ctx. and_then (stage_4_review_and_test env ctx)
       (\<lambda>ctx. and_then (stage_5_deployment env ctx) mark_completed))))))"
    by (rule entered_in_order_chain [where k = 1 and k' = 2 and ctx = ctx])
       (simp_all add: stage_1_spec [unfolded One_nat_def] fresh_2)
  with False show ?thesis
    by (simp add: run_full_workflow_def)
qed

text \<open>
  C3. In every run of \<^verbatim>\<open>resume_workflow\<close> and of \<^verbatim>\<open>run_full_workflow\<close>, whatever the
  producer does and whatever context and input the run starts from, stage \<open>n + 1\<close> is
  entered only with a context whose stage-\<open>n\<close> result is present, for \<open>n\<close> from 1 to 4.
\<close>

theorem stage_progression_monotonic:
  "monotonic_progression (snd (resume_workflow env user_input ctx)) \<and>
   monotonic_progression (snd (run_full_workflow env user_input ctx))"
  using resume_workflow_order [of env user_input ctx]
    run_full_workflow_order [of env user_input ctx]
  by (blast intro: entered_in_order_progression)


theorem stage_progression_monotonic_witness:
  \<open>StageStart 3
     (example_context
        \<lparr>current_stage := JString ''requirements'', requirements := JObject [(''ok'', JBool True)],
         current_stage := JString ''architecture'', architecture := JObject [(''ok'', JBool True)]\<rparr>)
     \<in> set (snd (resume_workflow example_env (Some ''a shop'') example_context)) \<and>
   stage_field 2
     (example_context
        \<lparr>current_stage := JString ''requirements'', requirements := JObject [(''ok'', JBool True)],
         current_stage := JString ''architecture'', architecture := JObject [(''ok'', JBool True)]\<rparr>)
     \<noteq> JNull\<close>
proof -
  have entered: \<open>StageStart 3
     (example_context
        \<lparr>current_stage := JString ''requirements'', requirements := JObject [(''ok'', JBool True)],
         current_stage := JString ''architecture'', architecture := JObject [(''ok'', JBool True)]\<rparr>)
     \<in> set (snd (resume_workflow example_env (Some ''a shop'') example_context))\<close>
    by code_simp
  from stage_progression_monotonic [of example_env \<open>Some ''a shop''\<close> example_context]
  have "monotonic_progression (snd (resume_workflow example_env (Some ''a shop'') example_context))"
    by simp
  with entered show ?thesis
    unfolding monotonic_progression_def by fastforce
qed

lemma resume_workflow_all_done:
  assumes "truthy (requirements ctx)" "truthy (architecture ctx)" "truthy (codebase ctx)"
    "truthy (test_results ctx)" "truthy (deployment ctx)"
  shows "resume_workflow env user_input ctx = (Inr (ctx\<lparr>current_stage := JString ''completed''\<rparr>), [])"
  using assms
  by (simp add: resume_workflow_def unless_done_def and_then_def mark_completed_def)

lemma unless_done_returns:
  assumes "\<And>c. step_spec k c (stage c)" and "\<And>c. field c = stage_field k c"
    and "unless_done field stage ctx = (Inr ctx', evs)"
  shows "truthy (stage_field k ctx') \<and> (\<forall>j. j \<noteq> k \<longrightarrow> stage_field j ctx' = stage_field j ctx)"
  using unless_done_spec [OF assms(1,2), of ctx] assms(3)
  by (simp add: step_spec_def)

lemma resume_workflow_returns:
  assumes "resume_workflow env user_input ctx = (Inr ctx1, evs)"
  shows "truthy (requirements ctx1) \<and> truthy (architecture ctx1) \<and> truthy (codebase ctx1) \<and>
         truthy (test_results ctx1) \<and> truthy (deployment ctx1) \<and>
         current_stage ctx1 = JString ''completed''"
proof -
  from assms obtain c1 c2 c3 c4 c5 e1 e2 e3 e4 e5 e6 where
    s1: "(if \<not> truthy (requirements ctx) then
           (if \<not> input_given user_input then (Inl ValueError, [])
            else stage_1_requirements env user_input ctx)
          else (Inr ctx, [])) = (Inr c1, e1)"
    and s2: "unless_done architecture (stage_2_architecture env) c1 = (Inr c2, e2)"
    and s3: "unless_done codebase (stage_3_code_generation env) c2 = (Inr c3, e3)"
    and s4: "unless_done test_results (stage_4_review_and_test env) c3 = (Inr c4, e4)"
    and s5: "unless_done deployment (stage_5_deployment env) c4 = (Inr c5, e5)"
    and s6: "mark_completed c5 = (Inr ctx1, e6)"
    unfolding resume_workflow_def and_then_Inr by blast
  from s1 stage_1_spec [of ctx env user_input] have r1: "truthy (stage_field 1 c1)"
    by (auto simp: step_spec_def split: if_splits)
  have r2: "truthy (stage_field 2 c2) \<and> (\<forall>j. j \<noteq> 2 \<longrightarrow> stage_field j c2 = stage_field j c1)"
    by (rule unless_done_returns [OF stage_2_spec _ s2]) simp
  have r3: "truthy (stage_field 3 c3) \<and> (\<forall>j. j \<noteq> 3 \<longrightarrow> stage_field j c3 = stage_field j c2)"
    by (rule unless_done_returns [OF stage_3_spec _ s3]) simp
  have r4: "truthy (stage_field 4 c4) \<and> (\<forall>j. j \<noteq> 4 \<longrightarrow> stage_field j c4 = stage_field j c3)"
    by (rule unless_done_returns [OF stage_4_spec _ s4]) simp
  have r5: "truthy (stage_field 5 c5) \<and> (\<forall>j. j \<noteq> 5 \<longrightarrow> stage_field j c5 = stage_field j c4)"
    by (rule unless_done_returns [OF stage_5_spec _ s5]) simp
  from s6 have c: "ctx1 = c5\<lparr>current_stage := JString ''completed''\<rparr>"
    by (simp add: mark_completed_def)
  have "stage_field 1 c5 = stage_field 1 c1"
    using r2 [THEN conjunct2, rule_format, of 1] r3 [THEN conjunct2, rule_format, of 1]
      r4 [THEN conjunct2, rule_format, of 1] r5 [THEN conjunct2, rule_format, of 1]
    by simp
  with r1 have "truthy (requirements c5)"
    by simp
  moreover have "stage_field 2 c5 = stage_field 2 c2"
    using r3 [THEN conjunct2, rule_format, of 2] r4 [THEN conjunct2, rule_format, of 2]
      r5 [THEN conjunct2, rule_format, of 2]
    by simp
  with r2 have "truthy (architecture c5)"
    by simp
  moreover have "stage_field 3 c5 = stage_field 3 c3"
    using r4 [THEN conjunct2, rule_format, of 3] r5 [THEN conjunct2, rule_format, of 3]
    by simp
  with r3 have "truthy (codebase c5)"
    by simp
  moreover have "stage_field 4 c5 = stage_field 4 c4"
    using r5 [THEN conjunct2, rule_format, of 4]
    by simp
  with r4 have "truthy (test_results c5)"
    by simp
  moreover from r5 have "truthy (deployment c5)"
    by simp
  ultimately show ?thesis
    using c by simp
qed

text \<open>
  No stage and no run writes the project name or the creation time: a run that returns,
  returns them as it found them.
\<close>

lemma stage_1_frame:
  "stage_1_requirements env user_input ctx = (Inr ctx', evs) \<Longrightarrow>
     project_name ctx' = project_name ctx \<and> created_at ctx' = created_at ctx"
  by (auto simp: stage_1_requirements_def split: prod.splits)

lemma stage_2_frame:
  "stage_2_architecture env ctx = (Inr ctx', evs) \<Longrightarrow>
     project_name ctx' = project_name ctx \<and> created_at ctx' = created_at ctx"
  by (auto simp: stage_2_architecture_def split: prod.splits)

lemma stage_3_frame:
  "stage_3_code_generation env ctx = (Inr ctx', evs) \<Longrightarrow>
     project_name ctx' = project_name ctx \<and> created_at ctx' = created_at ctx"
  by (auto simp: stage_3_code_generation_def finish_code_generation_def
           split: sum.splits prod.splits option.splits)

lemma stage_4_frame:
  "stage_4_review_and_test env ctx = (Inr ctx', evs) \<Longrightarrow>
     project_name ctx' = project_name ctx \<and> created_at ctx' = created_at ctx"
  by (auto simp: stage_4_review_and_test_def split: prod.splits sum.splits bool.splits)

lemma stage_5_frame:
  "stage_5_deployment env ctx = (Inr ctx', evs) \<Longrightarrow>
     project_name ctx' = project_name ctx \<and> created_at ctx' = created_at ctx"
  by (auto simp: stage_5_deployment_def split: prod.splits sum.splits)

lemma unless_done_frame:
  assumes "\<And>c c' evs. stage c = (Inr c', evs) \<Longrightarrow>
             project_name c' = project_name c \<and> created_at c' = created_at c"
    and "unless_done field stage ctx = (Inr ctx', evs)"
  shows "project_name ctx' = project_name ctx \<and> created_at ctx' = created_at ctx"
proof (cases "truthy (field ctx)")
  case True
  with assms(2) show ?thesis by (simp add: unless_done_def)
next
  case False
  with assms(2) have "stage ctx = (Inr ctx', evs)" by (simp add: unless_done_def)
  then show ?thesis by (rule assms(1))
qed

lemma mark_completed_frame:
  "mark_completed ctx = (Inr ctx', evs) \<Longrightarrow>
     project_name ctx' = project_name ctx \<and> created_at ctx' = created_at ctx"
  by (auto simp: mark_completed_def)

lemma resume_workflow_frame:
  assumes "resume_workflow env user_input ctx = (Inr ctx1, evs)"
  shows "project_name ctx1 = project_name ctx \<and> created_at ctx1 = created_at ctx"
proof -
  from assms obtain c1 c2 c3 c4 c5 e1 e2 e3 e4 e5 e6 where
    s1: "(if \<not> truthy (requirements ctx) then
           (if \<not> input_given user_input then (Inl ValueError, [])
            else stage_1_requirements env user_input ctx)
          else (Inr ctx, [])) = (Inr c1, e1)"
    and s2: "unless_done architecture (stage_2_architecture env) c1 = (Inr c2, e2)"
    and s3: "unless_done codebase (stage_3_code_generation env) c2 = (Inr c3, e3)"
    and s4: "unless_done test_results (stage_4_review_and_test env) c3 = (Inr c4, e4)"
    and s5: "unless_done deployment (stage_5_deployment env) c4 = (Inr c5, e5)"
    and s6: "mark_completed c5 = (Inr ctx1, e6)"
    unfolding resume_workflow_def and_then_Inr by blast
  have "project_name c1 = project_name ctx \<and> created_at c1 = created_at ctx"
  proof (cases "truthy (requirements ctx)")
    case True
    with s1 show ?thesis by simp
  next
    case False
    with s1 have "stage_1_requirements env user_input ctx = (Inr c1, e1)"
      by (simp split: if_splits)
    then show ?thesis by (rule stage_1_frame)
  qed
  moreover have "project_name c2 = project_name c1 \<and> created_at c2 = created_at c1"
    using stage_2_frame s2 by (rule unless_done_frame)
  moreover have "project_name c3 = project_name c2 \<and> created_at c3 = created_at c2"
    using stage_3_frame s3 by (rule unless_done_frame)
  moreover have "project_name c4 = project_name c3 \<and> created_at c4 = created_at c3"
    using stage_4_frame s4 by (rule unless_done_frame)
  moreover have "project_name c5 = project_name c4 \<and> created_at c5 = created_at c4"
    using stage_5_frame s5 by (rule unless_done_frame)
  moreover note mark_completed_frame [OF s6]
  ultimately show ?thesis
    by simp
qed

lemma run_full_workflow_frame:
  assumes "run_full_workflow env user_input ctx = (Inr ctx1, evs)"
  shows "project_name ctx1 = project_name ctx \<and> created_at ctx1 = created_at ctx"
proof (cases "current_stage ctx \<noteq> JString ''not_started''")
  case True
  with assms have "resume_workflow env user_input ctx = (Inr ctx1, evs)"
    by (simp add: run_full_workflow_def)
  then show ?thesis by (rule resume_workflow_frame)
next
  case False
  with assms have "and_then (stage_1_requirements env user_input ctx)
        (\<lambda>ctx. and_then (stage_2_architecture env ctx)
        (\<lambda>ctx. and_then (stage_3_code_generation env ctx)
        (\<lambda>ctx. and_then (stage_4_review_and_test env ctx)
        (\<lambda>ctx. and_then (stage_5_deployment env ctx)
          mark_completed)))) = (Inr ctx1, evs)"
    by (simp add: run_full_workflow_def)
  then obtain c1 c2 c3 c4 c5 e1 e2 e3 e4 e5 e6 where
    s1: "stage_1_requirements env user_input ctx = (Inr c1, e1)"
    and s2: "stage_2_architecture env c1 = (Inr c2, e2)"
    and s3: "stage_3_code_generation env c2 = (Inr c3, e3)"
    and s4: "stage_4_review_and_test env c3 = (Inr c4, e4)"
    and s5: "stage_5_deployment env c4 = (Inr c5, e5)"
    and s6: "mark_completed c5 = (Inr ctx1, e6)"
    unfolding and_then_Inr by blast
  from stage_1_frame [OF s1] stage_2_frame [OF s2] stage_3_frame [OF s3]
    stage_4_frame [OF s4] stage_5_frame [OF s5] mark_completed_frame [OF s6]
  show ?thesis by simp
qed

text \<open>
  C2. When all five results are there (each a non-empty value, which is what
  \<^verbatim>\<open>resume_workflow\<close> tests and what every stage stores), a call of
  \<^verbatim>\<open>resume_workflow\<close> enters no stage, makes no remote call and returns the context with
  \<^verbatim>\<open>current_stage\<close> set to \<^verbatim>\<open>completed\<close>. And after any call that returned, a second call,
  with any input and any behaviour of the producer, leaves an empty trace (so no remote
  call) and returns the very context the first call returned.
\<close>

theorem resume_twice_idempotent:
  "(truthy (requirements ctx) \<and> truthy (architecture ctx) \<and> truthy (codebase ctx) \<and>
    truthy (test_results ctx) \<and> truthy (deployment ctx) \<longrightarrow>
      resume_workflow env user_input ctx = (Inr (ctx\<lparr>current_stage := JString ''completed''\<rparr>), [])) \<and>
   (resume_workflow env user_input ctx = (Inr ctx1, evs) \<longrightarrow>
      resume_workflow env' user_input' ctx1 = (Inr ctx1, []))"
proof (intro conjI impI)
  assume "truthy (requirements ctx) \<and> truthy (architecture ctx) \<and> truthy (codebase ctx) \<and>
    truthy (test_results ctx) \<and> truthy (deployment ctx)"
  then show "resume_workflow env user_input ctx = (Inr (ctx\<lparr>current_stage := JString ''completed''\<rparr>), [])"
    by (simp add: resume_workflow_all_done)
next
  assume "resume_workflow env user_input ctx = (Inr ctx1, evs)"
  then have fin: "truthy (requirements ctx1) \<and> truthy (architecture ctx1) \<and>
      truthy (codebase ctx1) \<and> truthy (test_results ctx1) \<and> truthy (deployment ctx1) \<and>
      current_stage ctx1 = JString ''completed''"
    by (rule resume_workflow_returns)
  from fin have "resume_workflow env' user_input' ctx1
      = (Inr (ctx1\<lparr>current_stage := JString ''completed''\<rparr>), [])"
    by (simp add: resume_workflow_all_done)
  moreover from fin have "ctx1\<lparr>current_stage := JString ''completed''\<rparr> = ctx1"
    by simp
  ultimately show "resume_workflow env' user_input' ctx1 = (Inr ctx1, [])"
    by simp
qed

theorem resume_twice_idempotent_witness:
  \<open>fst (resume_workflow example_env (Some ''a shop'') example_context) = Inr example_done \<and>
   truthy (requirements example_done) \<and> truthy (architecture example_done) \<and>
   truthy (codebase example_done) \<and> truthy (test_results example_done) \<and>
   truthy (deployment example_done) \<and>
   resume_workflow example_env (Some ''more'') example_done
     = (Inr (example_done\<lparr>current_stage := JString ''completed''\<rparr>), []) \<and>
   resume_workflow failing_env None example_done = (Inr example_done, [])\<close>
proof -
  have first: \<open>fst (resume_workflow example_env (Some ''a shop'') example_context)
      = Inr example_done\<close>
    by code_simp
  then have run: \<open>resume_workflow example_env (Some ''a shop'') example_context
      = (Inr example_done, snd (resume_workflow example_env (Some ''a shop'') example_context))\<close>
    by (metis prod.collapse)
  have present: "truthy (requirements example_done) \<and> truthy (architecture example_done) \<and>
      truthy (codebase example_done) \<and> truthy (test_results example_done) \<and>
      truthy (deployment example_done)"
    by (simp add: example_done_def codebase_json_def)
  from resume_twice_idempotent
         [of example_done example_env \<open>Some ''more''\<close> example_done "[]" failing_env None]
       present
  have again: \<open>resume_workflow example_env (Some ''more'') example_done
      = (Inr (example_done\<lparr>current_stage := JString ''completed''\<rparr>), [])\<close>
    by blast
  from resume_twice_idempotent
         [of example_context example_env \<open>Some ''a shop''\<close> example_done
             \<open>snd (resume_workflow example_env (Some ''a shop'') example_context)\<close>
             failing_env None]
       run
  have second: "resume_workflow failing_env None example_done = (Inr example_done, [])"
    by blast
  from first present again second show ?thesis
    by blast
qed

text \<open>
  C5, as stated, fails. With a producer that answers every call with the array
  \<^verbatim>\<open>[1]\<close>, a run from a new context with user input supplied gets that array accepted
  as the requirements and as the architecture (it is a true value), and the code stage
  then raises \<^verbatim>\<open>AttributeError\<close> on \<^verbatim>\<open>architecture.get\<close>: an exception from a stage,
  in a run where input was supplied, after two remote calls.
\<close>

theorem stage_raises_on_list_answer:
  \<open>parse_json_response json_loads (strip ''[1]'') = Some (JArray [JInt 1]) \<and>
   input_given (Some ''a shop'') \<and>
   fst (resume_workflow list_answer_env (Some ''a shop'') example_context) = Inl AttributeError \<and>
   remote_calls (snd (resume_workflow list_answer_env (Some ''a shop'') example_context)) = 2\<close>
  by code_simp

lemma and_then_no_ValueError:
  assumes "fst m \<noteq> Inl ValueError" and "\<And>x. fst (f x) \<noteq> Inl ValueError"
  shows "fst (and_then m f) \<noteq> Inl ValueError"
  using assms by (auto simp: and_then_Inl)

lemma unless_done_no_ValueError:
  assumes "\<And>c. step_spec k c (stage c)" and "\<And>c. field c = stage_field k c"
  shows "fst (unless_done field stage ctx) \<noteq> Inl ValueError"
  using unless_done_spec [OF assms, of ctx] by (simp add: step_spec_def)

lemma steps_no_ValueError:
  "fst (unless_done architecture (stage_2_architecture env) c) \<noteq> Inl ValueError"
  "fst (unless_done codebase (stage_3_code_generation env) c) \<noteq> Inl ValueError"
  "fst (unless_done test_results (stage_4_review_and_test env) c) \<noteq> Inl ValueError"
  "fst (unless_done deployment (stage_5_deployment env) c) \<noteq> Inl ValueError"
  by (rule unless_done_no_ValueError [where k = 2], simp_all add: stage_2_spec,
      rule unless_done_no_ValueError [where k = 3], simp_all add: stage_3_spec,
      rule unless_done_no_ValueError [where k = 4], simp_all add: stage_4_spec,
      rule unless_done_no_ValueError [where k = 5], simp_all add: stage_5_spec)

lemma resume_workflow_ValueError:
  "fst (resume_workflow env user_input ctx) = Inl ValueError \<longleftrightarrow>
     \<not> truthy (requirements ctx) \<and> \<not> input_given user_input"
proof (cases "\<not> truthy (requirements ctx) \<and> \<not> input_given user_input")
  case True
  then show ?thesis
    by (simp add: resume_workflow_def and_then_def)
next
  case False
  have first: "fst (if \<not> truthy (requirements ctx) then
         (if \<not> input_given user_input then (Inl ValueError, [])
          else stage_1_requirements env user_input ctx)
       else (Inr ctx, [])) \<noteq> Inl ValueError"
    using False stage_1_spec [of ctx env user_input]
    by (auto simp: step_spec_def)
  have "fst (mark_completed c) \<noteq> Inl ValueError" for c
    by (simp add: mark_completed_def)
  then have "fst (resume_workflow env user_input ctx) \<noteq> Inl ValueError"
    unfolding resume_workflow_def
    by (intro and_then_no_ValueError first steps_no_ValueError)
  with False show ?thesis by simp
qed

lemma agent_call_default:
  "all_calls_fail env \<Longrightarrow> fst (agent_call env role task) = get_default_structure role"
  unfolding agent_call_def call_api_def
  by (rule call_api_loop_all_failed) (simp add: all_calls_fail_def)


lemma default_lookup:
  "get_default_structure ''planner'' = default_planner"
  "get_default_structure ''architect'' = default_architect"
  "get_default_structure ''developer'' = default_developer"
  "get_default_structure ''reviewer'' = default_reviewer"
  "get_default_structure ''devops'' = default_devops"
  by (simp_all add: get_default_structure_def default_structures_def)

lemma gather_modules_default:
  "all_calls_fail env \<Longrightarrow>
   fst (gather_modules env i modules) = map (\<lambda>m. Returned default_developer) modules"
proof (induction modules arbitrary: i)
  case Nil
  then show ?case by simp
next
  case (Cons module modules)
  from Cons.prems have "fst (generate_module_code env i) = default_developer"
    by (simp add: generate_module_code_def agent_call_default default_lookup)
  with Cons.IH [OF Cons.prems, of "Suc i"] show ?case
    by (auto split: prod.splits)
qed

text \<open>
  Paths and the character 0: a component of a path is made of characters of the path, and
  cleaning a file name neither removes nor introduces the character. So when the
  operating system performs every call, files whose names are free of it are written.
\<close>

lemma split_subset: "x \<in> set (split s sep) \<Longrightarrow> set x \<subseteq> set s"
proof (induction s sep arbitrary: x rule: split.induct)
  case (1 s sep)
  show ?case
  proof (cases "sep = []")
    case True
    with "1.prems" show ?thesis by (simp add: split.simps)
  next
    case False
    show ?thesis
    proof (cases "py_find s sep")
      case None
      with False "1.prems" show ?thesis by (simp add: split.simps)
    next
      case (Some i)
      with False "1.prems" have "x = take i s \<or> x \<in> set (split (drop (i + length sep) s) sep)"
        by (simp add: split.simps [of s sep])
      then show ?thesis
      proof
        assume "x = take i s"
        then show ?thesis by (simp add: set_take_subset)
      next
        assume "x \<in> set (split (drop (i + length sep) s) sep)"
        with "1.IH" [OF False Some] have "set x \<subseteq> set (drop (i + length sep) s)"
          by blast
        also have "\<dots> \<subseteq> set s" by (rule set_drop_subset)
        finally show ?thesis .
      qed
    qed
  qed
qed

lemma parent_has_nul_path: "parent_has_nul file_path \<Longrightarrow> has_nul file_path"
proof -
  assume "parent_has_nul file_path"
  then obtain x where x: "x \<in> set (butlast (path_parts file_path))" "has_nul x"
    by (auto simp: parent_has_nul_def list_ex_iff)
  from x(1) have "x \<in> set (split file_path ''/'')"
    by (auto simp: path_parts_def dest: in_set_butlastD)
  then have "set x \<subseteq> set file_path"
    by (rule split_subset)
  with x(2) show ?thesis
    by (auto simp: has_nul_def)
qed

lemma has_nul_safe_name: "has_nul (safe_name file_name) = has_nul file_name"
  by (induction file_name) (auto simp: has_nul_def safe_name_def)

lemma write_files_performed:
  "list_all (\<lambda>kv. \<not> has_nul (fst kv) \<and> is_str (snd kv)) files \<Longrightarrow>
   write_files (\<lambda>j op. True) j files = Inr ()"
proof (induction files arbitrary: j)
  case Nil
  then show ?case by simp
next
  case (Cons kv files)
  obtain file_path file_content where kv: "kv = (file_path, file_content)"
    by (cases kv)
  with Cons.prems have "\<not> has_nul file_path" "is_str file_content"
    by simp_all
  moreover from this have "\<not> parent_has_nul file_path"
    using parent_has_nul_path by blast
  ultimately have "write_file (\<lambda>op. True) file_path file_content = Inr ()"
    by (simp add: write_file_def)
  with Cons kv show ?case
    by simp
qed

lemma write_deployment_files_performed:
  "list_all (\<lambda>kv. \<not> has_nul (fst kv)) files \<Longrightarrow>
   write_deployment_files (\<lambda>j op. True) j files = Inr ()"
proof (induction files arbitrary: j)
  case Nil
  then show ?case by simp
next
  case (Cons kv files)
  obtain file_name file_content where kv: "kv = (file_name, file_content)"
    by (cases kv)
  with Cons.prems have "\<not> has_nul (safe_name file_name)"
    by (simp add: has_nul_safe_name)
  then have "write_deployment_file (\<lambda>op. True) file_name file_content = Inr ()"
    by (simp add: write_deployment_file_def)
  with Cons kv show ?case
    by simp
qed


text \<open>
  Runs in which every remote call fails: each stage stores the default record of its
  role, provided the operating system performs the file-system calls.
\<close>

lemma fs_performs_all_stage: "fs_performs_all env \<Longrightarrow> env_fs env stage = (\<lambda>i j op. True)"
  by (intro ext) (simp add: fs_performs_all_def)

lemma fs_performs_all_folder: "fs_performs_all env \<Longrightarrow> env_fs env stage i = (\<lambda>j op. True)"
  by (intro ext) (simp add: fs_performs_all_def)

lemma default_developer_deps:
  "py_get default_developer ''dependencies'' (JArray [])
     = Inr (JArray [JString ''fastapi'', JString ''react'', JString ''postgresql''])"
  by (simp add: default_developer_def)

lemma code_files_writable_step:
  "code_files_writable module_data \<Longrightarrow> \<not> has_nul name \<Longrightarrow>
   create_code_files (\<lambda>i j op. True) i ((JString name, module_data) # rest)
     = create_code_files (\<lambda>i j op. True) (Suc i) rest"
  by (auto simp: code_files_writable_def has_nul_def split: sum.splits bool.splits)

lemma default_developer_writable: "code_files_writable default_developer"
  by (simp add: code_files_writable_def default_developer_def has_nul_def write_files_performed
           del: write_files.simps(2))

lemma combine_default_modules:
  "combine_results set_order
       [JString ''backend'', JString ''frontend'', JString ''database'']
       [Returned default_developer, Returned default_developer, Returned default_developer]
     = Inr \<lparr>c_modules = [(JString ''backend'', default_developer),
                          (JString ''frontend'', default_developer),
                          (JString ''database'', default_developer)],
            c_dependencies = set_order
              [JString ''fastapi'', JString ''react'', JString ''postgresql'',
               JString ''fastapi'', JString ''react'', JString ''postgresql'',
               JString ''fastapi'', JString ''react'', JString ''postgresql''],
            c_status = ''completed''\<rparr>"
  by (simp add: combine_results_def default_developer_deps)

lemma stage_3_default:
  assumes "all_calls_fail env" and "fs_performs_all env"
    and "architecture c = default_architect"
  shows "fst (stage_3_code_generation env c)
    = Inr (c\<lparr>current_stage := JString ''code'',
             codebase := codebase_json
               [(''backend'', default_developer), (''frontend'', default_developer),
                (''database'', default_developer)]
               (env_set_order env
                  [JString ''fastapi'', JString ''react'', JString ''postgresql'',
                   JString ''fastapi'', JString ''react'', JString ''postgresql'',
                   JString ''fastapi'', JString ''react'', JString ''postgresql''])
               ''completed''\<rparr>)"
proof -
  have modules: "py_get (architecture c) ''modules'' default_modules = Inr default_modules"
    using assms(3) by (simp add: default_architect_def)
  obtain results evs where g: "gather_modules env 0
      [JString ''backend'', JString ''frontend'', JString ''database''] = (results, evs)"
    by (cases "gather_modules env 0
      [JString ''backend'', JString ''frontend'', JString ''database'']")
  with gather_modules_default [OF assms(1), of 0
      "[JString ''backend'', JString ''frontend'', JString ''database'']"]
  have results: "results
      = [Returned default_developer, Returned default_developer, Returned default_developer]"
    by simp
  have "create_code_files (\<lambda>i j op. True) 0
      [(JString ''backend'', default_developer), (JString ''frontend'', default_developer),
       (JString ''database'', default_developer)] = Inr ()"
    by (simp add: code_files_writable_step [OF default_developer_writable] has_nul_def
             del: create_code_files.simps(2))
  then show ?thesis
    using modules g results combine_default_modules [of "env_set_order env"]
      fs_performs_all_stage [OF assms(2), of 3]
    by (simp add: stage_3_code_generation_def finish_code_generation_def default_modules_def
             del: gather_modules.simps create_code_files.simps)
qed

lemma stage_4_default:
  assumes "all_calls_fail env" and "fs_performs_all env"
  shows "fst (stage_4_review_and_test env c)
    = Inr (c\<lparr>current_stage := JString ''review'', test_results := default_reviewer\<rparr>)"
proof -
  obtain result evs where a: "agent_call env ''reviewer'' 0 = (result, evs)"
    by (cases "agent_call env ''reviewer'' 0")
  with agent_call_default [OF assms(1), of "''reviewer''" 0] have r: "result = default_reviewer"
    by (simp add: default_lookup)
  with a fs_performs_all_folder [OF assms(2), of 4 0] show ?thesis
    by (simp add: stage_4_review_and_test_def default_reviewer_def create_test_files_def
          write_files_performed has_nul_def del: write_files.simps(2))
qed

lemma stage_5_default:
  assumes "all_calls_fail env" and "fs_performs_all env"
  shows "fst (stage_5_deployment env c)
    = Inr (c\<lparr>current_stage := JString ''deployment'', deployment := default_devops\<rparr>)"
proof -
  obtain result evs where a: "agent_call env ''devops'' 0 = (result, evs)"
    by (cases "agent_call env ''devops'' 0")
  with agent_call_default [OF assms(1), of "''devops''" 0] have "result = default_devops"
    by (simp add: default_lookup)
  with a fs_performs_all_stage [OF assms(2), of 5] show ?thesis
    by (simp add: stage_5_deployment_def default_devops_def file_mappings_def
          write_deployment_files_performed has_nul_def del: write_deployment_files.simps(2))
qed


lemma unless_done_default:
  assumes "fst (stage c) = Inr c'"
  shows "\<exists>evs. unless_done field stage c = (Inr (if truthy (field c) then c else c'), evs)"
  using assms by (cases "stage c") (auto simp: unless_done_def)

lemma resume_workflow_degrades:
  assumes fail: "all_calls_fail env" and fs: "fs_performs_all env"
    and input: "truthy (requirements ctx) \<or> input_given user_input"
    and arch: "\<not> truthy (architecture ctx)"
  shows "\<exists>ctx1 evs. resume_workflow env user_input ctx = (Inr ctx1, evs) \<and>
    project_name ctx1 = project_name ctx \<and>
    requirements ctx1
      = (if truthy (requirements ctx) then requirements ctx else default_planner) \<and>
    architecture ctx1 = default_architect \<and>
    codebase ctx1
      = (if truthy (codebase ctx) then codebase ctx
         else codebase_json
                [(''backend'', default_developer), (''frontend'', default_developer),
                 (''database'', default_developer)]
                (env_set_order env
                   [JString ''fastapi'', JString ''react'', JString ''postgresql'',
                    JString ''fastapi'', JString ''react'', JString ''postgresql'',
                    JString ''fastapi'', JString ''react'', JString ''postgresql''])
                ''completed'') \<and>
    test_results ctx1
      = (if truthy (test_results ctx) then test_results ctx else default_reviewer) \<and>
    deployment ctx1 = (if truthy (deployment ctx) then deployment ctx else default_devops) \<and>
    created_at ctx1 = created_at ctx \<and>
    current_stage ctx1 = JString ''completed''"
proof -
  define c1 where "c1 = (if truthy (requirements ctx) then ctx
    else ctx\<lparr>current_stage := JString ''requirements'', requirements := default_planner\<rparr>)"
  define c2 where
    "c2 = c1\<lparr>current_stage := JString ''architecture'', architecture := default_architect\<rparr>"
  define c3 where "c3 = (if truthy (codebase c2) then c2
    else c2\<lparr>current_stage := JString ''code'',
            codebase := codebase_json
               [(''backend'', default_developer), (''frontend'', default_developer),
                (''database'', default_developer)]
               (env_set_order env
                  [JString ''fastapi'', JString ''react'', JString ''postgresql'',
                   JString ''fastapi'', JString ''react'', JString ''postgresql'',
                   JString ''fastapi'', JString ''react'', JString ''postgresql''])
               ''completed''\<rparr>)"
  define c4 where "c4 = (if truthy (test_results c3) then c3
    else c3\<lparr>current_stage := JString ''review'', test_results := default_reviewer\<rparr>)"
  define c5 where "c5 = (if truthy (deployment c4) then c4
    else c4\<lparr>current_stage := JString ''deployment'', deployment := default_devops\<rparr>)"
  have "\<exists>e1. (if \<not> truthy (requirements ctx) then
           (if \<not> input_given user_input then (Inl ValueError, [])
            else stage_1_requirements env user_input ctx)
          else (Inr ctx, [])) = (Inr c1, e1)"
  proof (cases "truthy (requirements ctx)")
    case True
    then show ?thesis by (simp add: c1_def)
  next
    case False
    with input have "input_given user_input" by simp
    with False agent_call_default [OF fail, of "''planner''" 0] show ?thesis
      by (cases "agent_call env ''planner'' 0")
         (simp add: stage_1_requirements_def c1_def default_lookup)
  qed
  then obtain e1 where s1: "(if \<not> truthy (requirements ctx) then
           (if \<not> input_given user_input then (Inl ValueError, [])
            else stage_1_requirements env user_input ctx)
          else (Inr ctx, [])) = (Inr c1, e1)"
    by blast
  have a1: "\<not> truthy (architecture c1)"
    using arch by (simp add: c1_def)
  have "fst (stage_2_architecture env c1) = Inr c2"
    using agent_call_default [OF fail, of "''architect''" 0]
    by (cases "agent_call env ''architect'' 0")
       (simp add: stage_2_architecture_def c2_def default_lookup)
  with unless_done_default
         [where stage = "stage_2_architecture env" and c = c1 and c' = c2
            and field = architecture] a1
  obtain e2 where s2: "unless_done architecture (stage_2_architecture env) c1 = (Inr c2, e2)"
    by auto
  have "architecture c2 = default_architect"
    by (simp add: c2_def)
  from unless_done_default
         [where stage = "stage_3_code_generation env" and c = c2 and field = codebase,
          OF stage_3_default [OF fail fs this]]
  obtain e3 where s3: "unless_done codebase (stage_3_code_generation env) c2 = (Inr c3, e3)"
    unfolding c3_def by blast
  from unless_done_default
         [where stage = "stage_4_review_and_test env" and c = c3 and field = test_results,
          OF stage_4_default [OF fail fs]]
  obtain e4 where s4: "unless_done test_results (stage_4_review_and_test env) c3 = (Inr c4, e4)"
    unfolding c4_def by blast
  from unless_done_default
         [where stage = "stage_5_deployment env" and c = c4 and field = deployment,
          OF stage_5_default [OF fail fs]]
  obtain e5 where s5: "unless_done deployment (stage_5_deployment env) c4 = (Inr c5, e5)"
    unfolding c5_def by blast
  have run: "resume_workflow env user_input ctx
      = (Inr (c5\<lparr>current_stage := JString ''completed''\<rparr>), e1 @ e2 @ e3 @ e4 @ e5)"
    unfolding resume_workflow_def
    by (simp add: and_then_def s1 s2 s3 s4 s5 mark_completed_def)
  have f1: "project_name c1 = project_name ctx \<and> created_at c1 = created_at ctx \<and>
      requirements c1 = (if truthy (requirements ctx) then requirements ctx else default_planner) \<and>
      codebase c1 = codebase ctx \<and> test_results c1 = test_results ctx \<and>
      deployment c1 = deployment ctx"
    by (simp add: c1_def)
  have f2: "project_name c2 = project_name c1 \<and> created_at c2 = created_at c1 \<and>
      requirements c2 = requirements c1 \<and> architecture c2 = default_architect \<and>
      codebase c2 = codebase c1 \<and> test_results c2 = test_results c1 \<and>
      deployment c2 = deployment c1"
    by (simp add: c2_def)
  have f3: "project_name c3 = project_name c2 \<and> created_at c3 = created_at c2 \<and>
      requirements c3 = requirements c2 \<and> architecture c3 = architecture c2 \<and>
      test_results c3 = test_results c2 \<and> deployment c3 = deployment c2"
    by (simp add: c3_def)
  have f4: "project_name c4 = project_name c3 \<and> created_at c4 = created_at c3 \<and>
      requirements c4 = requirements c3 \<and> architecture c4 = architecture c3 \<and>
      codebase c4 = codebase c3 \<and> deployment c4 = deployment c3"
    by (simp add: c4_def)
  have f5: "project_name c5 = project_name c4 \<and> created_at c5 = created_at c4 \<and>
      requirements c5 = requirements c4 \<and> architecture c5 = architecture c4 \<and>
      codebase c5 = codebase c4 \<and> test_results c5 = test_results c4"
    by (simp add: c5_def)
  have g3: "codebase c3 = (if truthy (codebase ctx) then codebase ctx
         else codebase_json
                [(''backend'', default_developer), (''frontend'', default_developer),
                 (''database'', default_developer)]
                (env_set_order env
                   [JString ''fastapi'', JString ''react'', JString ''postgresql'',
                    JString ''fastapi'', JString ''react'', JString ''postgresql'',
                    JString ''fastapi'', JString ''react'', JString ''postgresql''])
                ''completed'')"
    using f1 f2 by (simp add: c3_def)
  have g4: "test_results c4
      = (if truthy (test_results ctx) then test_results ctx else default_reviewer)"
    using f1 f2 f3 by (simp add: c4_def)
  have g5: "deployment c5 = (if truthy (deployment ctx) then deployment ctx else default_devops)"
    using f1 f2 f3 f4 by (simp add: c5_def)
  show ?thesis
    using run f1 f2 f3 f4 f5 g3 g4 g5 by simp
qed


text \<open>
  An exception of another origin can leave a stage in a run that was given its input, and
  it can be a \<^verbatim>\<open>ValueError\<close>: a deployment file whose name has the character 0 in it
  makes \<^verbatim>\<open>open\<close> raise inside the \<^verbatim>\<open>try\<close> of \<^verbatim>\<open>create_deployment_files_safe\<close>, and the
  handler's own \<^verbatim>\<open>open\<close> of the error file, whose name contains the same name, raises
  again, out of the function and of the deployment stage.
\<close>

lemma null_byte_leaves_deployment_stage:
  \<open>parse_json_response json_loads
       (strip (''{"docker_files": {"a'' @ [CHR 0x5C] @ ''u0000b": "x"}}''))
     = Some (JObject [(''docker_files'',
                       JObject [(''a'' @ [CHR 0x00] @ ''b'', JString ''x'')])]) \<and>
   input_given (Some ''a shop'') \<and>
   fst (resume_workflow null_name_env (Some ''a shop'') example_context) = Inl NullByteError\<close>
  by code_simp

text \<open>
  C5, amended. \<^verbatim>\<open>resume_workflow\<close> raises the input-missing error, the \<^verbatim>\<open>ValueError\<close> of
  its own \<^verbatim>\<open>raise\<close> statement, exactly when the requirements are absent or empty and the
  user input is absent or empty; it does so with an empty trace, before any stage is
  entered. What degrades is a failed call: when every remote call fails or returns nothing
  that can be parsed, and the operating system performs the file-system calls, a run that
  has requirements or input, from a context without an architecture result, returns, and
  every result it had to produce is the default record of its role (for the code stage,
  the three default modules, each with the default developer record, and the status
  \<^verbatim>\<open>completed\<close>); the results it found, the project name and the creation time are kept.
\<close>

theorem resume_workflow_input_missing:
  "(fst (resume_workflow env user_input ctx) = Inl ValueError \<longleftrightarrow>
      \<not> truthy (requirements ctx) \<and> \<not> input_given user_input) \<and>
   (\<not> truthy (requirements ctx) \<and> \<not> input_given user_input \<longrightarrow>
      resume_workflow env user_input ctx = (Inl ValueError, [])) \<and>
   (all_calls_fail env \<and> fs_performs_all env \<and>
    (truthy (requirements ctx) \<or> input_given user_input) \<and>
    \<not> truthy (architecture ctx) \<longrightarrow>
      (\<exists>ctx1 evs. resume_workflow env user_input ctx = (Inr ctx1, evs) \<and>
         project_name ctx1 = project_name ctx \<and>
         requirements ctx1
           = (if truthy (requirements ctx) then requirements ctx
              else get_default_structure ''planner'') \<and>
         architecture ctx1 = get_default_structure ''architect'' \<and>
         codebase ctx1
           = (if truthy (codebase ctx) then codebase ctx
              else codebase_json
                     [(''backend'', get_default_structure ''developer''),
                      (''frontend'', get_default_structure ''developer''),
                      (''database'', get_default_structure ''developer'')]
                     (env_set_order env
                        [JString ''fastapi'', JString ''react'', JString ''postgresql'',
                         JString ''fastapi'', JString ''react'', JString ''postgresql'',
                         JString ''fastapi'', JString ''react'', JString ''postgresql''])
                     ''completed'') \<and>
         test_results ctx1
           = (if truthy (test_results ctx) then test_results ctx
              else get_default_structure ''reviewer'') \<and>
         deployment ctx1
           = (if truthy (deployment ctx) then deployment ctx
              else get_default_structure ''devops'') \<and>
         created_at ctx1 = created_at ctx \<and>
         current_stage ctx1 = JString ''completed''))"
proof (intro conjI impI)
  show "fst (resume_workflow env user_input ctx) = Inl ValueError \<longleftrightarrow>
      \<not> truthy (requirements ctx) \<and> \<not> input_given user_input"
    by (rule resume_workflow_ValueError)
next
  assume "\<not> truthy (requirements ctx) \<and> \<not> input_given user_input"
  then show "resume_workflow env user_input ctx = (Inl ValueError, [])"
    by (simp add: resume_workflow_def and_then_def)
next
  assume "all_calls_fail env \<and> fs_performs_all env \<and>
    (truthy (requirements ctx) \<or> input_given user_input) \<and>
    \<not> truthy (architecture ctx)"
  then have "all_calls_fail env" "fs_performs_all env"
    "truthy (requirements ctx) \<or> input_given user_input" "\<not> truthy (architecture ctx)"
    by simp_all
  from resume_workflow_degrades [OF this]
  show "\<exists>ctx1 evs. resume_workflow env user_input ctx = (Inr ctx1, evs) \<and>
         project_name ctx1 = project_name ctx \<and>
         requirements ctx1
           = (if truthy (requirements ctx) then requirements ctx
              else get_default_structure ''planner'') \<and>
         architecture ctx1 = get_default_structure ''architect'' \<and>
         codebase ctx1
           = (if truthy (codebase ctx) then codebase ctx
              else codebase_json
                     [(''backend'', get_default_structure ''developer''),
                      (''frontend'', get_default_structure ''developer''),
                      (''database'', get_default_structure ''developer'')]
                     (env_set_order env
                        [JString ''fastapi'', JString ''react'', JString ''postgresql'',
                         JString ''fastapi'', JString ''react'', JString ''postgresql'',
                         JString ''fastapi'', JString ''react'', JString ''postgresql''])
                     ''completed'') \<and>
         test_results ctx1
           = (if truthy (test_results ctx) then test_results ctx
              else get_default_structure ''reviewer'') \<and>
         deployment ctx1
           = (if truthy (deployment ctx) then deployment ctx
              else get_default_structure ''devops'') \<and>
         created_at ctx1 = created_at ctx \<and>
         current_stage ctx1 = JString ''completed''"
    by (simp only: default_lookup)
qed

theorem resume_workflow_input_missing_witness:
  \<open>\<not> truthy (requirements example_context) \<and> \<not> input_given None \<and>
   resume_workflow example_env None example_context = (Inl ValueError, []) \<and>
   resume_workflow example_env (Some []) example_context = (Inl ValueError, []) \<and>
   all_calls_fail failing_env \<and> fs_performs_all failing_env \<and>
   input_given (Some ''a shop'') \<and>
   \<not> truthy (architecture example_context) \<and>
   fst (resume_workflow failing_env (Some ''a shop'') example_context)
     = Inr \<lparr> project_name = ''shop'',
             requirements = default_planner,
             architecture = default_architect,
             codebase =
               codebase_json
                 [(''backend'', default_developer), (''frontend'', default_developer),
                  (''database'', default_developer)]
                 [JString ''fastapi'', JString ''react'', JString ''postgresql'']
                 ''completed'',
             test_results = default_reviewer,
             deployment = default_devops,
             created_at = ''2025-01-01T00:00:00'',
             current_stage = JString ''completed'' \<rparr>\<close>
proof -
  have absent: "\<not> truthy (requirements example_context) \<and>
      \<not> truthy (architecture example_context) \<and> \<not> truthy (codebase example_context) \<and>
      \<not> truthy (test_results example_context) \<and> \<not> truthy (deployment example_context) \<and>
      project_name example_context = ''shop'' \<and>
      created_at example_context = ''2025-01-01T00:00:00''"
    by (simp add: example_context_def ProjectContext_def)
  have fail: "all_calls_fail failing_env"
    by (simp add: all_calls_fail_def failing_env_def attempt_failed_def)
  have fs: "fs_performs_all failing_env"
    by (simp add: fs_performs_all_def failing_env_def)
  have order: "env_set_order failing_env
      [JString ''fastapi'', JString ''react'', JString ''postgresql'',
       JString ''fastapi'', JString ''react'', JString ''postgresql'',
       JString ''fastapi'', JString ''react'', JString ''postgresql'']
    = [JString ''fastapi'', JString ''react'', JString ''postgresql'']"
    by (simp add: failing_env_def)
  from absent fail fs
    resume_workflow_input_missing [of failing_env \<open>Some ''a shop''\<close> example_context]
  obtain ctx1 evs where
    run: "resume_workflow failing_env (Some ''a shop'') example_context = (Inr ctx1, evs)"
    and fields: "project_name ctx1 = ''shop''"
      "requirements ctx1 = default_planner" "architecture ctx1 = default_architect"
      "codebase ctx1 = codebase_json
                 [(''backend'', default_developer), (''frontend'', default_developer),
                  (''database'', default_developer)]
                 [JString ''fastapi'', JString ''react'', JString ''postgresql'']
                 ''completed''"
      "test_results ctx1 = default_reviewer" "deployment ctx1 = default_devops"
      "created_at ctx1 = ''2025-01-01T00:00:00''" "current_stage ctx1 = JString ''completed''"
    by (auto simp: default_lookup order)
  from fields have "ctx1 = \<lparr> project_name = ''shop'',
             requirements = default_planner,
             architecture = default_architect,
             codebase =
               codebase_json
                 [(''backend'', default_developer), (''frontend'', default_developer),
                  (''database'', default_developer)]
                 [JString ''fastapi'', JString ''react'', JString ''postgresql'']
                 ''completed'',
             test_results = default_reviewer,
             deployment = default_devops,
             created_at = ''2025-01-01T00:00:00'',
             current_stage = JString ''completed'' \<rparr>"
    by (cases ctx1) simp
  with run have result: "fst (resume_workflow failing_env (Some ''a shop'') example_context)
     = Inr \<lparr> project_name = ''shop'',
             requirements = default_planner,
             architecture = default_architect,
             codebase =
               codebase_json
                 [(''backend'', default_developer), (''frontend'', default_developer),
                  (''database'', default_developer)]
                 [JString ''fastapi'', JString ''react'', JString ''postgresql'']
                 ''completed'',
             test_results = default_reviewer,
             deployment = default_devops,
             created_at = ''2025-01-01T00:00:00'',
             current_stage = JString ''completed'' \<rparr>"
    by simp
  from absent fail fs result
    resume_workflow_input_missing [of example_env None example_context]
    resume_workflow_input_missing [of example_env "Some []" example_context]
  show ?thesis
    by simp
qed

section \<open>Properties of the fan-out\<close>

lemma module_deps_Some:
  "module_deps module_data = Some deps \<Longrightarrow>
   \<exists>v. py_get module_data ''dependencies'' (JArray []) = Inr v \<and> py_iter v = Inr deps \<and>
       list_all hashable deps"
  by (auto simp: module_deps_def split: sum.splits if_splits)

text \<open>
  Writing the code files can fail where the aggregation has not: a module directory that
  the operating system does not make (a name with a slash when the directory above it is
  missing, for \<^verbatim>\<open>mkdir\<close> is called without \<^verbatim>\<open>parents\<close>) and a module name with the
  character 0 both make the stage raise.
\<close>

lemma module_dir_refused:
  "\<not> has_nul name \<Longrightarrow> \<not> os i 0 MakeDir \<Longrightarrow>
   create_code_files os i ((JString name, module_data) # rest) = Inl OSError"
  by simp

lemma module_name_null_byte:
  "has_nul name \<Longrightarrow>
   create_code_files os i ((JString name, module_data) # rest) = Inl NullByteError"
  by simp

text \<open>
  C4. Three modules with distinct names; the tasks of the first and the third return
  records (with dependencies that can be collected and code files that can be written),
  the task of the second raises. Then the aggregation does not raise: the combined result
  maps the first and the third module to the records their tasks returned and the second
  to the default developer record, and its status is \<^verbatim>\<open>partial_failure\<close>. And when no
  module name has the character 0 and the operating system performs the file-system
  calls, the stage goes on to write the files and stores that result as the codebase.
\<close>

theorem fan_out_isolation:
  assumes names: "m1 \<noteq> m2" "m1 \<noteq> m3" "m2 \<noteq> m3"
    and deps: "module_deps r1 = Some deps1" "module_deps r3 = Some deps3"
    and paths: "\<not> has_nul m1" "\<not> has_nul m2" "\<not> has_nul m3"
    and files: "code_files_writable r1" "code_files_writable r3"
    and performs: "\<forall>i j op. os i j op"
  shows "combine_results set_order [JString m1, JString m2, JString m3]
             [Returned r1, RaisedException, Returned r3]
           = Inr \<lparr>c_modules = [(JString m1, r1),
                                (JString m2, get_default_structure ''developer''),
                                (JString m3, r3)],
                  c_dependencies = set_order (deps1 @ deps3),
                  c_status = ''partial_failure''\<rparr> \<and>
         finish_code_generation set_order os [JString m1, JString m2, JString m3]
             [Returned r1, RaisedException, Returned r3] ctx
           = Inr (ctx\<lparr>current_stage := JString ''code'',
                      codebase := codebase_json
                        [(m1, r1), (m2, get_default_structure ''developer''), (m3, r3)]
                        (set_order (deps1 @ deps3)) ''partial_failure''\<rparr>)"
proof -
  from deps(1) obtain v1 where v1: "py_get r1 ''dependencies'' (JArray []) = Inr v1"
    "py_iter v1 = Inr deps1" "list_all hashable deps1"
    using module_deps_Some by blast
  from deps(2) obtain v3 where v3: "py_get r3 ''dependencies'' (JArray []) = Inr v3"
    "py_iter v3 = Inr deps3" "list_all hashable deps3"
    using module_deps_Some by blast
  have combined: "combine_results set_order [JString m1, JString m2, JString m3]
             [Returned r1, RaisedException, Returned r3]
           = Inr \<lparr>c_modules = [(JString m1, r1),
                                (JString m2, get_default_structure ''developer''),
                                (JString m3, r3)],
                  c_dependencies = set_order (deps1 @ deps3),
                  c_status = ''partial_failure''\<rparr>"
    using names v1 v3 by (simp add: combine_results_def)
  from performs have os: "os = (\<lambda>i j op. True)"
    by (intro ext) simp
  have written: "create_code_files os 0 [(JString m1, r1),
      (JString m2, get_default_structure ''developer''), (JString m3, r3)] = Inr ()"
    unfolding os
    using files paths default_developer_writable
    by (simp add: code_files_writable_step default_lookup del: create_code_files.simps(2))
  from combined written show ?thesis
    by (simp add: finish_code_generation_def)
qed

theorem fan_out_isolation_witness:
  \<open>''backend'' \<noteq> ''frontend'' \<and> ''backend'' \<noteq> ''database'' \<and> ''frontend'' \<noteq> ''database'' \<and>
   module_deps (JObject [(''dependencies'', JArray [JString ''flask'']),
                         (''code_files'', JObject [(''app.py'', JString ''print(1)'')])])
     = Some [JString ''flask''] \<and>
   module_deps (JObject [(''status'', JString ''ok'')]) = Some [] \<and>
   \<not> has_nul ''backend'' \<and> \<not> has_nul ''frontend'' \<and> \<not> has_nul ''database'' \<and>
   code_files_writable (JObject [(''dependencies'', JArray [JString ''flask'']),
                         (''code_files'', JObject [(''app.py'', JString ''print(1)'')])]) \<and>
   code_files_writable (JObject [(''status'', JString ''ok'')]) \<and>
   finish_code_generation remdups (\<lambda>i j op. True)
     [JString ''backend'', JString ''frontend'', JString ''database'']
     [Returned (JObject [(''dependencies'', JArray [JString ''flask'']),
                         (''code_files'', JObject [(''app.py'', JString ''print(1)'')])]),
      RaisedException,
      Returned (JObject [(''status'', JString ''ok'')])]
     example_context
   = Inr (example_context
           \<lparr>current_stage := JString ''code'',
            codebase := codebase_json
              [(''backend'', JObject [(''dependencies'', JArray [JString ''flask'']),
                         (''code_files'', JObject [(''app.py'', JString ''print(1)'')])]),
               (''frontend'', default_developer),
               (''database'', JObject [(''status'', JString ''ok'')])]
              [JString ''flask''] ''partial_failure''\<rparr>)\<close>
proof -
  have names: \<open>''backend'' \<noteq> ''frontend''\<close> \<open>''backend'' \<noteq> ''database''\<close>
    \<open>''frontend'' \<noteq> ''database''\<close>
    by simp_all
  have deps1: \<open>module_deps (JObject [(''dependencies'', JArray [JString ''flask'']),
                         (''code_files'', JObject [(''app.py'', JString ''print(1)'')])])
     = Some [JString ''flask'']\<close>
    by (simp add: module_deps_def)
  have deps3: \<open>module_deps (JObject [(''status'', JString ''ok'')]) = Some []\<close>
    by (simp add: module_deps_def)
  have paths: \<open>\<not> has_nul ''backend''\<close> \<open>\<not> has_nul ''frontend''\<close> \<open>\<not> has_nul ''database''\<close>
    by (simp_all add: has_nul_def)
  have files1: \<open>code_files_writable (JObject [(''dependencies'', JArray [JString ''flask'']),
                         (''code_files'', JObject [(''app.py'', JString ''print(1)'')])])\<close>
    by (simp add: code_files_writable_def has_nul_def write_files_performed
             del: write_files.simps(2))
  have files3: \<open>code_files_writable (JObject [(''status'', JString ''ok'')])\<close>
    by (simp add: code_files_writable_def has_nul_def)
  have performs: "\<forall>i j op. (\<lambda>(i::nat) (j::nat) (op::fs_op). True) i j op"
    by simp
  have dflt: \<open>get_default_structure ''developer'' = default_developer\<close>
    by (simp add: get_default_structure_def default_structures_def)
  from fan_out_isolation [OF names deps1 deps3 paths files1 files3 performs,
         of remdups example_context]
    names deps1 deps3 paths files1 files3 dflt
  show ?thesis
    by simp
qed

end
